theory Spec2Isabelle
  imports Main "HOL-Library.Word" "HOL-Library.Code_Target_Numeral"
begin

section \<open>Go values used by the fleet server\<close>

text \<open>
  Go's \<open>uint\<close> is taken at 64 bits, as on every platform the server is built for:
  conversions from \<open>int\<close> wrap around. Go's \<open>int\<close> and \<open>int64\<close> values are HOL
  integers; the only producers of such values in the modelled code are the parsers of
  \<open>strconv\<close>, which keep them inside the 64-bit signed range. A Go string is a sequence
  of bytes, here a \<open>string\<close>. An instant of \<open>time.Time\<close> is a number of nanoseconds.
\<close>

type_synonym uint = "64 word"
type_synonym time = int

text \<open>
  Modelled from the spec: the interface \<open>pubsub.Error\<close> is declared outside the source
  files at hand; a publication answers Ok, NoSubscriber or Error, and the service asks an
  error value of that interface for \<open>NoSubscriber()\<close>.

  Error values. \<open>osqueryError\<close> is the struct of the service (message, nodeInvalid).
  A \<open>pubsubError\<close> is any error value that implements \<open>pubsub.Error\<close>, with its
  text and the answer of its method \<open>NoSubscriber()\<close>. \<open>otherError\<close> is any other
  error value, given by its text.
\<close>

datatype go_error =
    osqueryError string bool
  | pubsubError string bool
  | otherError string

fun Error :: "go_error \<Rightarrow> string" where
  "Error (osqueryError message nodeInvalid) = message"
| "Error (pubsubError message noSubscriber) = message"
| "Error (otherError message) = message"

fun NodeInvalid :: "go_error \<Rightarrow> bool" where
  "NodeInvalid (osqueryError message nodeInvalid) = nodeInvalid"
| "NodeInvalid e = False"

text \<open>\<open>errors.Wrap(err, msg)\<close> of \<open>github.com/pkg/errors\<close>: the text is \<open>msg: err\<close>.\<close>

definition Wrap :: "go_error \<Rightarrow> string \<Rightarrow> go_error" where
  "Wrap err msg = otherError (msg @ '': '' @ Error err)"

subsection \<open>The functions of package strings that the code calls\<close>

definition HasPrefix :: "string \<Rightarrow> string \<Rightarrow> bool" where
  "HasPrefix s p = (take (length p) s = p)"

definition TrimPrefix :: "string \<Rightarrow> string \<Rightarrow> string" where
  "TrimPrefix s p = (if HasPrefix s p then drop (length p) s else s)"

text \<open>\<open>strings.Trim(s, cutset)\<close>: all leading and trailing bytes of the cutset go.\<close>

definition Trim :: "string \<Rightarrow> string \<Rightarrow> string" where
  "Trim s cutset =
     rev (dropWhile (\<lambda>c. c \<in> set cutset) (rev (dropWhile (\<lambda>c. c \<in> set cutset) s)))"

fun Contains :: "string \<Rightarrow> string \<Rightarrow> bool" where
  "Contains [] sub = (sub = [])"
| "Contains (c # cs) sub = (HasPrefix (c # cs) sub \<or> Contains cs sub)"

text \<open>
  \<open>strings.ToLower\<close> on the ASCII letters; bytes of other runes are kept. No property
  below depends on the runes outside ASCII.
\<close>

definition lower_byte :: "char \<Rightarrow> char" where
  "lower_byte c =
     (if (65::nat) \<le> of_char c \<and> of_char c \<le> (90::nat) then char_of (of_char c + (32::nat)) else c)"

definition ToLower :: "string \<Rightarrow> string" where
  "ToLower s = map lower_byte s"

fun Join :: "string list \<Rightarrow> string \<Rightarrow> string" where
  "Join [] sep = []"
| "Join [x] sep = x"
| "Join (x # y # ys) sep = x @ sep @ Join (y # ys) sep"

subsection \<open>strconv\<close>

text \<open>
  \<open>strconv.ParseInt(s, 10, 64)\<close> and \<open>strconv.Atoi(s)\<close> with a 64-bit \<open>int\<close>: an
  optional sign, then at least one decimal digit. The digits are read from the left into
  an unsigned 64-bit accumulator: a byte that is no digit is a syntax error, an
  accumulator that overflows is a range error, whichever comes first. Both return a
  value beside the error: 0 with a syntax error, the nearest bound with a range error.
\<close>

datatype num_err = ErrSyntax | ErrRange

fun num_err_text :: "num_err \<Rightarrow> string" where
  "num_err_text ErrSyntax = ''invalid syntax''"
| "num_err_text ErrRange = ''value out of range''"

definition is_digit :: "char \<Rightarrow> bool" where
  "is_digit c = ((48::nat) \<le> of_char c \<and> of_char c \<le> (57::nat))"

fun parse_digits :: "nat \<Rightarrow> string \<Rightarrow> num_err + nat" where
  "parse_digits n [] = Inr n"
| "parse_digits n (c # cs) =
     (if \<not> is_digit c then Inl ErrSyntax
      else if 2 ^ 64 \<le> n * 10 + (of_char c - 48) then Inl ErrRange
      else parse_digits (n * 10 + (of_char c - 48)) cs)"

definition parse_int64 :: "string \<Rightarrow> int \<times> num_err option" where
  "parse_int64 s =
     (if s = [] then (0, Some ErrSyntax)
      else
        let neg = (hd s = CHR ''-'');
            ds = (if hd s = CHR ''+'' \<or> hd s = CHR ''-'' then tl s else s)
        in if ds = [] then (0, Some ErrSyntax)
           else (case parse_digits 0 ds of
               Inl ErrSyntax \<Rightarrow> (0, Some ErrSyntax)
             | Inl ErrRange \<Rightarrow> (if neg then - (2 ^ 63) else 2 ^ 63 - 1, Some ErrRange)
             | Inr un \<Rightarrow>
                 if \<not> neg \<and> 2 ^ 63 \<le> un then (2 ^ 63 - 1, Some ErrRange)
                 else if neg \<and> 2 ^ 63 < un then (- (2 ^ 63), Some ErrRange)
                 else (if neg then - int un else int un, None)))"

text \<open>
  The text of a \<open>*strconv.NumError\<close> is \<open>strconv.Func: parsing "s": reason\<close>. The
  quoting of \<open>s\<close> is \<open>strconv.Quote\<close>, written here for strings without a byte that
  \<open>Quote\<close> escapes; the text of these errors takes no part in any property below.
\<close>

definition NumError :: "string \<Rightarrow> string \<Rightarrow> num_err \<Rightarrow> go_error" where
  "NumError func s e =
     otherError (''strconv.'' @ func @ '': parsing '' @ [CHR 0x22] @ s @ [CHR 0x22] @ '': ''
                 @ num_err_text e)"

definition Atoi :: "string \<Rightarrow> int \<times> go_error option" where
  "Atoi s = (case parse_int64 s of (v, e) \<Rightarrow> (v, map_option (NumError ''Atoi'' s) e))"

definition ParseInt :: "string \<Rightarrow> int \<times> go_error option" where
  "ParseInt s = (case parse_int64 s of (v, e) \<Rightarrow> (v, map_option (NumError ''ParseInt'' s) e))"

text \<open>\<open>strconv.Itoa\<close> on a length, for the \<open>%d\<close> of the log lines.\<close>

fun Itoa :: "nat \<Rightarrow> string" where
  "Itoa n = (if n < 10 then [''0123456789'' ! n]
             else Itoa (n div 10) @ [''0123456789'' ! (n mod 10)])"

declare Itoa.simps [simp del]

section \<open>The policy recorder (server/datastore/mysql/policies.go)\<close>

text \<open>
  The arguments bound to the placeholders of the insert: a time, an unsigned integer or
  a \<open>*bool\<close> (nil is \<open>None\<close>).
\<close>

datatype sqlarg = ArgTime time | ArgUint uint | ArgBoolPtr "bool option"

text \<open>
  The second loop of \<open>RecordPolicyQueryExecutions\<close>: one placeholder group and four
  arguments per identifier of \<open>orderedIDs\<close>. A lookup of an absent key in the Go map
  gives the zero value, a nil pointer.
\<close>

fun bind_rows ::
  "uint list \<Rightarrow> (uint \<rightharpoonup> bool option) \<Rightarrow> uint \<Rightarrow> time \<Rightarrow> string list \<times> sqlarg list
   \<Rightarrow> string list \<times> sqlarg list" where
  "bind_rows [] results hostID updated (bindvars, vals) = (bindvars, vals)"
| "bind_rows (policyID # ids) results hostID updated (bindvars, vals) =
     (let matches = (case results policyID of None \<Rightarrow> None | Some p \<Rightarrow> p)
      in bind_rows ids results hostID updated
           (bindvars @ [''(?,?,?,?)''],
            vals @ [ArgTime updated, ArgUint policyID, ArgUint hostID, ArgBoolPtr matches]))"

definition policy_insert_sql :: "string" where
  "policy_insert_sql =
     ''INSERT INTO policy_membership_history (updated_at, policy_id, host_id, passes)''
     @ [CHR 0x0A, CHR 0x09, CHR 0x09, CHR 0x09, CHR 0x09] @ ''VALUES ''"

text \<open>
  \<open>RecordPolicyQueryExecutions\<close>. The range over the Go map visits every key once, in
  an order the language leaves open: \<open>iter\<close> is that order. \<open>sort.Slice\<close> with the
  comparison \<open><\<close> on \<open>uint\<close> is \<open>sort\<close>. \<open>exec\<close> is \<open>ds.writer.ExecContext\<close>, and
  \<open>fmt_v\<close> the \<open>%v\<close> rendering of the arguments in the wrapped error (it prints
  pointers). The result is the statement handed to the writer and the error returned.
\<close>

definition RecordPolicyQueryExecutions ::
  "(sqlarg list \<Rightarrow> string) \<Rightarrow> (string \<Rightarrow> sqlarg list \<Rightarrow> go_error option) \<Rightarrow>
   uint list \<Rightarrow> (uint \<rightharpoonup> bool option) \<Rightarrow> uint \<Rightarrow> time \<Rightarrow>
   (string \<times> sqlarg list) \<times> go_error option" where
  "RecordPolicyQueryExecutions fmt_v exec iter results hostID updated =
     (let orderedIDs = sort (foldl (\<lambda>ids policyID. ids @ [policyID]) [] iter);
          (bindvars, vals) = bind_rows orderedIDs results hostID updated ([], []);
          query = policy_insert_sql @ Join bindvars '',''
      in ((query, vals),
          (case exec query vals of
             None \<Rightarrow> None
           | Some err \<Rightarrow> Some (Wrap err (''insert policy_membership ('' @ fmt_v vals @ '')'')))))"

text \<open>The policy identifiers of the bound rows: the second of every four arguments.\<close>

fun bound_policy_ids :: "sqlarg list \<Rightarrow> uint list" where
  "bound_policy_ids (ArgTime t # ArgUint p # ArgUint h # ArgBoolPtr m # rest) =
     p # bound_policy_ids rest"
| "bound_policy_ids other = []"

fun bound_rows :: "sqlarg list \<Rightarrow> (uint \<times> bool option) list" where
  "bound_rows (ArgTime t # ArgUint p # ArgUint h # ArgBoolPtr m # rest) =
     (p, m) # bound_rows rest"
| "bound_rows other = []"

section \<open>Agents and detail queries (the osquery service)\<close>

text \<open>
  Modelled from the spec: the structs \<open>kolide.NetworkInterface\<close> and \<open>kolide.Host\<close>
  are declared outside the source files at hand. The records have the fields that the
  service reads or writes, with the types the assignments of the service give them.
\<close>

record NetworkInterface =
  MAC :: string
  IPAddress :: string
  Broadcast :: string
  IBytes :: int
  IErrors :: int
  Interface :: string
  IPackets :: int
  LastChange :: int
  Mask :: string
  Metric :: int
  MTU :: int
  OBytes :: int
  OErrors :: int
  OPackets :: int
  PointToPoint :: string
  Type :: int

record Host =
  ID :: uint
  DetailUpdateTime :: time
  HostName :: string
  UUID :: string
  Platform :: string
  OsqueryVersion :: string
  OSVersion :: string
  Build :: string
  PlatformLike :: string
  CodeName :: string
  Uptime :: int
  PhysicalMemory :: int
  CPUType :: string
  CPUSubtype :: string
  CPUBrand :: string
  CPUPhysicalCores :: int
  CPULogicalCores :: int
  HardwareVendor :: string
  HardwareModel :: string
  HardwareVersion :: string
  HardwareSerial :: string
  ComputerName :: string
  NetworkInterfaces :: "NetworkInterface list"
  DistributedInterval :: uint
  ConfigTLSRefresh :: uint
  LoggerTLSPeriod :: uint

type_synonym row = "string \<rightharpoonup> string"

text \<open>Indexing a Go \<open>map[string]string\<close>: an absent key gives the empty string.\<close>

definition index :: "row \<Rightarrow> string \<Rightarrow> string" where
  "index r k = (case r k of None \<Rightarrow> [] | Some v \<Rightarrow> v)"

definition emptyToZero :: "string \<Rightarrow> string" where
  "emptyToZero val = (if val = [] then ''0'' else val)"

text \<open>The conversions \<open>uint(n)\<close> of an \<open>int\<close> and the product of two \<open>int64\<close>.\<close>

definition to_uint :: "int \<Rightarrow> uint" where
  "to_uint n = word_of_int n"

definition mul_int64 :: "int \<Rightarrow> int \<Rightarrow> int" where
  "mul_int64 a b = sint (word_of_int (a * b) :: 64 word)"

definition Second :: int where
  "Second = 1000000000"

text \<open>
  An ingestion function works on the agent through a pointer and returns an error: the
  record holds the error, the agent as the call leaves it (also when it fails) and the
  lines given to \<open>logger.Log\<close>, each the list of its arguments.
\<close>

record ingested =
  out_err :: "go_error option"
  out_host :: Host
  out_log :: "string list list"

definition warn :: "string \<Rightarrow> string list" where
  "warn msg = [''component'', ''service'', ''method'', ''IngestFunc'', ''err'', msg]"

subsection \<open>network_interface\<close>

definition zero_nic :: NetworkInterface where
  "zero_nic = \<lparr>MAC = [], IPAddress = [], Broadcast = [], IBytes = 0, IErrors = 0,
     Interface = [], IPackets = 0, LastChange = 0, Mask = [], Metric = 0, MTU = 0, OBytes = 0,
     OErrors = 0, OPackets = 0, PointToPoint = [], Type = 0\<rparr>"

text \<open>
  The idiom \<open>if x, err = strconv.ParseInt(emptyToZero(s), 10, 64); err != nil { x = -1 }\<close>
  of the traffic counters.
\<close>

definition parse_or_minus_one :: "string \<Rightarrow> int" where
  "parse_or_minus_one s =
     (case ParseInt (emptyToZero s) of (v, None) \<Rightarrow> v | (v, Some err) \<Rightarrow> - 1)"

text \<open>The body of the loop over the rows: the interface of one row, or the error returned.\<close>

definition ingest_nic :: "row \<Rightarrow> go_error + NetworkInterface" where
  "ingest_nic row =
     (let nic = zero_nic;
          nic = nic\<lparr>MAC := index row ''mac''\<rparr>;
          nic = nic\<lparr>IPAddress := index row ''address''\<rparr>;
          nic = nic\<lparr>Broadcast := index row ''broadcast''\<rparr>;
          nic = nic\<lparr>IBytes := parse_or_minus_one (index row ''ibytes'')\<rparr>;
          nic = nic\<lparr>IErrors := parse_or_minus_one (index row ''ierrors'')\<rparr>;
          nic = nic\<lparr>Interface := index row ''interface''\<rparr>;
          nic = nic\<lparr>IPackets := parse_or_minus_one (index row ''ipackets'')\<rparr>
      in case (case row ''last_change'' of
                 None \<Rightarrow> (LastChange nic, None)
               | Some lastChange \<Rightarrow> ParseInt (emptyToZero lastChange)) of
           (v, Some err) \<Rightarrow> Inl err
         | (v, None) \<Rightarrow>
            (let nic = nic\<lparr>LastChange := v\<rparr>;
                 nic = nic\<lparr>Mask := index row ''mask''\<rparr>
             in case Atoi (emptyToZero (index row ''metric'')) of
                  (v, Some err) \<Rightarrow> Inl err
                | (v, None) \<Rightarrow>
                   (let nic = nic\<lparr>Metric := v\<rparr>
                    in case Atoi (emptyToZero (index row ''mtu'')) of
                         (v, Some err) \<Rightarrow> Inl err
                       | (v, None) \<Rightarrow>
                          (let nic = nic\<lparr>MTU := v\<rparr>;
                               nic = nic\<lparr>OBytes := parse_or_minus_one (index row ''obytes'')\<rparr>;
                               nic = nic\<lparr>OErrors := parse_or_minus_one (index row ''oerrors'')\<rparr>;
                               nic = nic\<lparr>OPackets := parse_or_minus_one (index row ''opackets'')\<rparr>;
                               nic = nic\<lparr>PointToPoint := index row ''point_to_point''\<rparr>
                           in case Atoi (emptyToZero (index row ''type'')) of
                                (v, Some err) \<Rightarrow> Inl err
                              | (v, None) \<Rightarrow> Inr (nic\<lparr>Type := v\<rparr>)))))"

fun ingest_nics :: "row list \<Rightarrow> NetworkInterface list \<Rightarrow> go_error + NetworkInterface list" where
  "ingest_nics [] networkInterfaces = Inr networkInterfaces"
| "ingest_nics (row # rows) networkInterfaces =
     (case ingest_nic row of
        Inl err \<Rightarrow> Inl err
      | Inr nic \<Rightarrow> ingest_nics rows (networkInterfaces @ [nic]))"

definition network_interface_Query :: string where
  "network_interface_Query =
     ''select ia.interface, address, mask, broadcast, point_to_point,'' @ [CHR 0x0A]
     @ ''                               id.interface, mac, id.type, mtu, metric, ipackets, opackets,'' @ [CHR 0x0A]
     @ ''                               ibytes, obytes, ierrors, oerrors, idrops, odrops, last_change'' @ [CHR 0x0A]
     @ ''                        from interface_details id join interface_addresses ia'' @ [CHR 0x0A]
     @ ''                               on ia.interface = id.interface where length(mac) > 0'' @ [CHR 0x0A]
     @ ''                               order by (ibytes + obytes) desc''"

definition network_interface_IngestFunc :: "Host \<Rightarrow> row list \<Rightarrow> ingested" where
  "network_interface_IngestFunc host rows =
     (if length rows = 0 then
        \<lparr>out_err = None, out_host = host,
         out_log = [warn ''detail_query_network_interface expected 1 or more results'']\<rparr>
      else case ingest_nics rows [] of
             Inl err \<Rightarrow> \<lparr>out_err = Some err, out_host = host, out_log = []\<rparr>
           | Inr networkInterfaces \<Rightarrow>
               \<lparr>out_err = None, out_host = host\<lparr>NetworkInterfaces := networkInterfaces\<rparr>,
                out_log = []\<rparr>)"

subsection \<open>os_version\<close>

definition os_version_IngestFunc :: "Host \<Rightarrow> row list \<Rightarrow> ingested" where
  "os_version_IngestFunc host rows =
     (if length rows \<noteq> 1 then
        \<lparr>out_err = None, out_host = host,
         out_log = [warn (''detail_query_os_version expected single result got ''
                          @ Itoa (length rows))]\<rparr>
      else
        let host = host\<lparr>OSVersion := index (rows ! 0) ''name'' @ '' '' @ index (rows ! 0) ''major''
                       @ ''.'' @ index (rows ! 0) ''minor'' @ ''.'' @ index (rows ! 0) ''patch''\<rparr>;
            host = host\<lparr>OSVersion := Trim (OSVersion host) ''.''\<rparr>;
            host = (case (rows ! 0) ''build'' of
                      Some build \<Rightarrow> host\<lparr>Build := build\<rparr>
                    | None \<Rightarrow> host);
            host = host\<lparr>Platform := index (rows ! 0) ''platform''\<rparr>;
            host = host\<lparr>PlatformLike := index (rows ! 0) ''platform_like''\<rparr>;
            host = host\<lparr>CodeName := index (rows ! 0) ''code_name''\<rparr>;
            host = (if Platform host = [] \<and> Contains (ToLower (index (rows ! 0) ''name'')) ''centos''
                    then host\<lparr>Platform := ''centos''\<rparr> else host)
        in \<lparr>out_err = None, out_host = host, out_log = []\<rparr>)"

subsection \<open>osquery_flags\<close>

definition osquery_flags_Query :: string where
  "osquery_flags_Query =
     ''select name, value from osquery_flags where name in ('' @ [CHR 0x22]
     @ ''distributed_interval'' @ [CHR 0x22] @ '', '' @ [CHR 0x22] @ ''config_tls_refresh''
     @ [CHR 0x22] @ '', '' @ [CHR 0x22] @ ''config_refresh'' @ [CHR 0x22] @ '', '' @ [CHR 0x22]
     @ ''logger_tls_period'' @ [CHR 0x22] @ '')''"

text \<open>
  The loop over the rows, on the agent and the two local variables \<open>configTLSRefresh\<close>
  and \<open>configRefresh\<close>. A parse error leaves the loop and the function at once; the
  agent keeps what earlier rows wrote.
\<close>

fun flags_loop ::
  "row list \<Rightarrow> Host \<Rightarrow> uint \<Rightarrow> uint \<Rightarrow> go_error option \<times> Host \<times> uint \<times> uint" where
  "flags_loop [] host configTLSRefresh configRefresh =
     (None, host, configTLSRefresh, configRefresh)"
| "flags_loop (row # rows) host configTLSRefresh configRefresh =
     (if index row ''name'' = ''distributed_interval'' then
        (case Atoi (emptyToZero (index row ''value'')) of
           (interval, Some err) \<Rightarrow>
             (Some (Wrap err ''parsing distributed_interval''), host, configTLSRefresh, configRefresh)
         | (interval, None) \<Rightarrow>
             flags_loop rows (host\<lparr>DistributedInterval := to_uint interval\<rparr>)
               configTLSRefresh configRefresh)
      else if index row ''name'' = ''config_tls_refresh'' then
        (case Atoi (emptyToZero (index row ''value'')) of
           (interval, Some err) \<Rightarrow>
             (Some (Wrap err ''parsing config_tls_refresh''), host, configTLSRefresh, configRefresh)
         | (interval, None) \<Rightarrow> flags_loop rows host (to_uint interval) configRefresh)
      else if index row ''name'' = ''config_refresh'' then
        (case Atoi (emptyToZero (index row ''value'')) of
           (interval, Some err) \<Rightarrow>
             (Some (Wrap err ''parsing config_refresh''), host, configTLSRefresh, configRefresh)
         | (interval, None) \<Rightarrow> flags_loop rows host configTLSRefresh (to_uint interval))
      else if index row ''name'' = ''logger_tls_period'' then
        (case Atoi (emptyToZero (index row ''value'')) of
           (interval, Some err) \<Rightarrow>
             (Some (Wrap err ''parsing logger_tls_period''), host, configTLSRefresh, configRefresh)
         | (interval, None) \<Rightarrow>
             flags_loop rows (host\<lparr>LoggerTLSPeriod := to_uint interval\<rparr>)
               configTLSRefresh configRefresh)
      else flags_loop rows host configTLSRefresh configRefresh)"

definition osquery_flags_IngestFunc :: "Host \<Rightarrow> row list \<Rightarrow> ingested" where
  "osquery_flags_IngestFunc host rows =
     (case flags_loop rows host 0 0 of
        (Some err, host, configTLSRefresh, configRefresh) \<Rightarrow>
          \<lparr>out_err = Some err, out_host = host, out_log = []\<rparr>
      | (None, host, configTLSRefresh, configRefresh) \<Rightarrow>
          \<lparr>out_err = None,
           out_host = (if configTLSRefresh \<noteq> 0
                       then host\<lparr>ConfigTLSRefresh := configTLSRefresh\<rparr>
                       else host\<lparr>ConfigTLSRefresh := configRefresh\<rparr>),
           out_log = []\<rparr>)"

subsection \<open>osquery_info, system_info, uptime\<close>

definition osquery_info_IngestFunc :: "Host \<Rightarrow> row list \<Rightarrow> ingested" where
  "osquery_info_IngestFunc host rows =
     (if length rows \<noteq> 1 then
        \<lparr>out_err = None, out_host = host,
         out_log = [warn (''detail_query_osquery_info expected single result got ''
                          @ Itoa (length rows))]\<rparr>
      else \<lparr>out_err = None, out_host = host\<lparr>OsqueryVersion := index (rows ! 0) ''version''\<rparr>,
            out_log = []\<rparr>)"

text \<open>
  In \<open>system_info\<close> each parsed number is assigned to its field before the error is
  looked at, so the field holds the value that \<open>Atoi\<close> returns beside its error.
\<close>

definition system_info_IngestFunc :: "Host \<Rightarrow> row list \<Rightarrow> ingested" where
  "system_info_IngestFunc host rows =
     (if length rows \<noteq> 1 then
        \<lparr>out_err = None, out_host = host,
         out_log = [warn (''detail_query_system_info expected single result got ''
                          @ Itoa (length rows))]\<rparr>
      else
        let (v, err) = Atoi (emptyToZero (index (rows ! 0) ''physical_memory''));
            host = host\<lparr>PhysicalMemory := v\<rparr>
        in if err \<noteq> None then \<lparr>out_err = err, out_host = host, out_log = []\<rparr>
        else
        let host = host\<lparr>HostName := index (rows ! 0) ''hostname''\<rparr>;
            host = host\<lparr>UUID := index (rows ! 0) ''uuid''\<rparr>;
            host = host\<lparr>CPUType := index (rows ! 0) ''cpu_type''\<rparr>;
            host = host\<lparr>CPUSubtype := index (rows ! 0) ''cpu_subtype''\<rparr>;
            host = host\<lparr>CPUBrand := index (rows ! 0) ''cpu_brand''\<rparr>;
            (v, err) = Atoi (emptyToZero (index (rows ! 0) ''cpu_physical_cores''));
            host = host\<lparr>CPUPhysicalCores := v\<rparr>
        in if err \<noteq> None then \<lparr>out_err = err, out_host = host, out_log = []\<rparr>
        else
        let (v, err) = Atoi (emptyToZero (index (rows ! 0) ''cpu_logical_cores''));
            host = host\<lparr>CPULogicalCores := v\<rparr>
        in if err \<noteq> None then \<lparr>out_err = err, out_host = host, out_log = []\<rparr>
        else
        let host = host\<lparr>HardwareVendor := index (rows ! 0) ''hardware_vendor''\<rparr>;
            host = host\<lparr>HardwareModel := index (rows ! 0) ''hardware_model''\<rparr>;
            host = host\<lparr>HardwareVersion := index (rows ! 0) ''hardware_version''\<rparr>;
            host = host\<lparr>HardwareSerial := index (rows ! 0) ''hardware_serial''\<rparr>;
            host = host\<lparr>ComputerName := index (rows ! 0) ''computer_name''\<rparr>
        in \<lparr>out_err = None, out_host = host, out_log = []\<rparr>)"

definition uptime_IngestFunc :: "Host \<Rightarrow> row list \<Rightarrow> ingested" where
  "uptime_IngestFunc host rows =
     (if length rows \<noteq> 1 then
        \<lparr>out_err = None, out_host = host,
         out_log = [warn (''detail_query_uptime expected single result got ''
                          @ Itoa (length rows))]\<rparr>
      else case Atoi (emptyToZero (index (rows ! 0) ''total_seconds'')) of
             (uptimeSeconds, Some err) \<Rightarrow> \<lparr>out_err = Some err, out_host = host, out_log = []\<rparr>
           | (uptimeSeconds, None) \<Rightarrow>
               \<lparr>out_err = None, out_host = host\<lparr>Uptime := mul_int64 uptimeSeconds Second\<rparr>,
                out_log = []\<rparr>)"

subsection \<open>The registry\<close>

text \<open>
  \<open>detailQueries\<close>, the map from the name of a detail query to its text and its
  ingestion function, as the list of its entries; a lookup is \<open>map_of\<close>.
\<close>

definition detailQueries :: "(string \<times> string \<times> (Host \<Rightarrow> row list \<Rightarrow> ingested)) list" where
  "detailQueries =
     [(''network_interface'', network_interface_Query, network_interface_IngestFunc),
      (''os_version'', ''select * from os_version limit 1'', os_version_IngestFunc),
      (''osquery_flags'', osquery_flags_Query, osquery_flags_IngestFunc),
      (''osquery_info'', ''select * from osquery_info limit 1'', osquery_info_IngestFunc),
      (''system_info'', ''select * from system_info limit 1'', system_info_IngestFunc),
      (''uptime'', ''select * from uptime limit 1'', uptime_IngestFunc)]"

definition hostLabelQueryPrefix :: string where
  "hostLabelQueryPrefix = ''kolide_label_query_''"

definition hostDetailQueryPrefix :: string where
  "hostDetailQueryPrefix = ''kolide_detail_query_''"

definition hostDistributedQueryPrefix :: string where
  "hostDistributedQueryPrefix = ''kolide_distributed_query_''"

section \<open>Collaborators of the service\<close>

text \<open>
  Modelled from the spec: the structs \<open>kolide.DistributedQueryCampaign\<close>,
  \<open>kolide.DistributedQueryResult\<close> and \<open>kolide.DistributedQueryExecution\<close>, the
  campaign and execution statuses and \<open>kolide.StatusOK\<close> are declared outside the
  source files at hand. The records have the fields the service sets; a campaign is
  pending, running or complete, an execution succeeded or failed, and the status an
  agent reports is a number, zero for success.
\<close>

datatype QueryStatus = QueryWaiting | QueryRunning | QueryComplete

record DistributedQueryCampaign =
  CampaignID :: uint
  Status :: QueryStatus

record DistributedQueryResult =
  DistributedQueryCampaignID :: uint
  ResultHost :: Host
  Rows :: "row list"
  ResultError :: "string option"

datatype ExecutionStatus = ExecutionSucceeded | ExecutionFailed

record DistributedQueryExecution =
  HostID :: uint
  ExecutionCampaignID :: uint
  ExecutionStatus :: ExecutionStatus

type_synonym OsqueryStatus = int

definition StatusOK :: OsqueryStatus where
  "StatusOK = 0"

text \<open>
  Every call that leaves the service: to the logger, the result store
  (\<open>svc.resultStore\<close>), the datastore (\<open>svc.ds\<close>) and the clock. A run of the service
  is the list of its calls, in order, whether the call succeeded or not.
\<close>

datatype call =
    CallLog "string list"
  | CallWriteResult DistributedQueryResult
  | CallDistributedQueryCampaign uint
  | CallSaveDistributedQueryCampaign DistributedQueryCampaign
  | CallNewDistributedQueryExecution DistributedQueryExecution
  | CallRecordLabelQueryExecutions Host "uint \<rightharpoonup> bool" time
  | CallSaveHost Host
  | CallNow

text \<open>
  The collaborators are interfaces: what a call answers is a parameter. An answer may
  depend on the arguments and on all the calls made before, so that two calls with the
  same arguments may be answered differently. An error is \<open>Some\<close>, or \<open>Inl\<close> where
  the call returns a value.
\<close>

record service =
  resultStore_WriteResult :: "call list \<Rightarrow> DistributedQueryResult \<Rightarrow> go_error option"
  ds_DistributedQueryCampaign :: "call list \<Rightarrow> uint \<Rightarrow> go_error + DistributedQueryCampaign"
  ds_SaveDistributedQueryCampaign :: "call list \<Rightarrow> DistributedQueryCampaign \<Rightarrow> go_error option"
  ds_NewDistributedQueryExecution :: "call list \<Rightarrow> DistributedQueryExecution \<Rightarrow> go_error option"
  ds_RecordLabelQueryExecutions ::
    "call list \<Rightarrow> Host \<Rightarrow> (uint \<rightharpoonup> bool) \<Rightarrow> time \<Rightarrow> go_error option"
  ds_SaveHost :: "call list \<Rightarrow> Host \<Rightarrow> go_error option"
  clock_Now :: "call list \<Rightarrow> time"

text \<open>The type assertion \<open>err.(pubsub.Error)\<close> and the method \<open>NoSubscriber()\<close>.\<close>

fun is_pubsub_Error :: "go_error \<Rightarrow> bool" where
  "is_pubsub_Error (pubsubError message noSubscriber) = True"
| "is_pubsub_Error e = False"

fun NoSubscriber :: "go_error \<Rightarrow> bool" where
  "NoSubscriber (pubsubError message noSubscriber) = noSubscriber"
| "NoSubscriber e = False"

section \<open>Scheduling and ingestion of query results\<close>

definition detailUpdateInterval :: int where
  "detailUpdateInterval = 3600 * Second"

text \<open>\<open>t.After(u)\<close> and \<open>t.Add(d)\<close> of \<open>time.Time\<close>.\<close>

definition After :: "time \<Rightarrow> time \<Rightarrow> bool" where
  "After t u = (u < t)"

definition Add :: "time \<Rightarrow> int \<Rightarrow> time" where
  "Add t d = t + d"

text \<open>
  \<open>hostDetailQueries\<close>: the queries to send to an agent, and the calls after it. The
  loop over \<open>detailQueries\<close> fills the map; each name is written once, so the order of
  the loop does not show.
\<close>

definition hostDetailQueries ::
  "service \<Rightarrow> Host \<Rightarrow> call list \<Rightarrow> (string \<rightharpoonup> string) \<times> call list" where
  "hostDetailQueries svc host tr =
     (let queries = Map.empty;
          now = clock_Now svc tr;
          tr = tr @ [CallNow]
      in if After (DetailUpdateTime host) (Add now (- detailUpdateInterval)) then (queries, tr)
         else (foldl (\<lambda>queries (name, query, ingestFunc).
                        queries(hostDetailQueryPrefix @ name \<mapsto> query)) queries detailQueries,
               tr))"

definition ingestDetailQuery :: "Host \<Rightarrow> string \<Rightarrow> row list \<Rightarrow> ingested" where
  "ingestDetailQuery host name rows =
     (let trimmedQuery = TrimPrefix name hostDetailQueryPrefix
      in case map_of detailQueries trimmedQuery of
           None \<Rightarrow>
             \<lparr>out_err = Some (osqueryError (''unknown detail query '' @ trimmedQuery) False),
              out_host = host, out_log = []\<rparr>
         | Some (query, ingestFunc) \<Rightarrow>
             (let out = ingestFunc host rows
              in case out_err out of
                   Some err \<Rightarrow>
                     out\<lparr>out_err := Some (osqueryError
                            (''ingesting query '' @ name @ '': '' @ Error err) False)\<rparr>
                 | None \<Rightarrow> out))"

definition ingestLabelQuery ::
  "Host \<Rightarrow> string \<Rightarrow> row list \<Rightarrow> (uint \<rightharpoonup> bool) \<Rightarrow> go_error option \<times> (uint \<rightharpoonup> bool)" where
  "ingestLabelQuery host query rows results =
     (let trimmedQuery = TrimPrefix query hostLabelQueryPrefix
      in case Atoi (emptyToZero trimmedQuery) of
           (trimmedQueryNum, Some err) \<Rightarrow>
             (Some (Wrap err ''converting query from string to int''), results)
         | (trimmedQueryNum, None) \<Rightarrow>
             (None, results(to_uint trimmedQueryNum \<mapsto> (0 < length rows))))"

text \<open>
  \<open>ingestDistributedQuery\<close>. The block after \<open>WriteResult\<close> either returns an error
  (\<open>Some\<close>) or lets the function go on to record the execution (\<open>None\<close>).
\<close>

definition ingestDistributedQuery ::
  "service \<Rightarrow> Host \<Rightarrow> string \<Rightarrow> row list \<Rightarrow> bool \<Rightarrow> call list \<Rightarrow> go_error option \<times> call list" where
  "ingestDistributedQuery svc host name rows failed tr =
     (let trimmedQuery = TrimPrefix name hostDistributedQueryPrefix
      in case Atoi (emptyToZero trimmedQuery) of
           (campaignID, Some err) \<Rightarrow>
             (Some (osqueryError (''unable to parse campaign ID: '' @ trimmedQuery) False), tr)
         | (campaignID, None) \<Rightarrow>
            (let res = \<lparr>DistributedQueryCampaignID = to_uint campaignID, ResultHost = host,
                        Rows = rows, ResultError = None\<rparr>;
                 res = (if failed then res\<lparr>ResultError := Some ''failed''\<rparr> else res);
                 err = resultStore_WriteResult svc tr res;
                 tr = tr @ [CallWriteResult res];
                 (returned, tr) =
                   (case err of
                      None \<Rightarrow> (None, tr)
                    | Some err \<Rightarrow>
                        if \<not> is_pubsub_Error err \<or> \<not> NoSubscriber err then
                          (Some (osqueryError (''writing results: '' @ Error err) False), tr)
                        else
                          (let loaded = ds_DistributedQueryCampaign svc tr (to_uint campaignID);
                               tr = tr @ [CallDistributedQueryCampaign (to_uint campaignID)]
                           in case loaded of
                                Inl err \<Rightarrow>
                                  (Some (osqueryError
                                     (''loading orphaned campaign: '' @ Error err) False), tr)
                              | Inr campaign \<Rightarrow>
                                 (let campaign = campaign\<lparr>Status := QueryComplete\<rparr>;
                                      err = ds_SaveDistributedQueryCampaign svc tr campaign;
                                      tr = tr @ [CallSaveDistributedQueryCampaign campaign]
                                  in case err of
                                       Some err \<Rightarrow>
                                         (Some (osqueryError
                                            (''closing orphaned campaign: '' @ Error err) False), tr)
                                     | None \<Rightarrow> (None, tr))))
             in case returned of
                  Some err \<Rightarrow> (Some err, tr)
                | None \<Rightarrow>
                   (let status = ExecutionSucceeded;
                        status = (if failed then ExecutionFailed else status);
                        exec = \<lparr>HostID = ID host, ExecutionCampaignID = to_uint campaignID,
                                 ExecutionStatus = status\<rparr>;
                        err = ds_NewDistributedQueryExecution svc tr exec;
                        tr = tr @ [CallNewDistributedQueryExecution exec]
                    in case err of
                         Some err \<Rightarrow>
                           (Some (osqueryError (''recording execution: '' @ Error err) False), tr)
                       | None \<Rightarrow> (None, tr))))"

text \<open>
  The local variables of \<open>SubmitDistributedQueryResults\<close>, the \<open>switch\<close> in the body
  of its loop, and the loop over the submitted results. The range over the Go map
  \<open>results\<close> visits every name once, in an order the language leaves open: the list is
  the map in the order of the visit.
\<close>

record locals =
  loc_host :: Host
  detailUpdated :: bool
  labelResults :: "uint \<rightharpoonup> bool"

definition ingest_result ::
  "service \<Rightarrow> (string \<rightharpoonup> OsqueryStatus) \<Rightarrow> string \<Rightarrow> row list \<Rightarrow> locals \<Rightarrow> call list
   \<Rightarrow> go_error option \<times> locals \<times> call list" where
  "ingest_result svc statuses query rows loc tr =
     (if HasPrefix query hostDetailQueryPrefix then
        (let out = ingestDetailQuery (loc_host loc) query rows
         in (out_err out, loc\<lparr>loc_host := out_host out, detailUpdated := True\<rparr>,
             tr @ map CallLog (out_log out)))
      else if HasPrefix query hostLabelQueryPrefix then
        (case ingestLabelQuery (loc_host loc) query rows (labelResults loc) of
           (err, results) \<Rightarrow> (err, loc\<lparr>labelResults := results\<rparr>, tr))
      else if HasPrefix query hostDistributedQueryPrefix then
        (let failed = (case statuses query of
                         Some status \<Rightarrow> status \<noteq> StatusOK
                       | None \<Rightarrow> False)
         in case ingestDistributedQuery svc (loc_host loc) query rows failed tr of
              (err, tr) \<Rightarrow> (err, loc, tr))
      else (Some (osqueryError (''unknown query prefix: '' @ query) False), loc, tr))"

fun ingest_results ::
  "service \<Rightarrow> (string \<rightharpoonup> OsqueryStatus) \<Rightarrow> (string \<times> row list) list \<Rightarrow> locals \<Rightarrow> call list
   \<Rightarrow> go_error option \<times> locals \<times> call list" where
  "ingest_results svc statuses [] loc tr = (None, loc, tr)"
| "ingest_results svc statuses ((query, rows) # rest) loc tr =
     (case ingest_result svc statuses query rows loc tr of
        (Some err, loc, tr) \<Rightarrow>
          (Some (osqueryError (''failed to ingest result: '' @ Error err) False), loc, tr)
      | (None, loc, tr) \<Rightarrow> ingest_results svc statuses rest loc tr)"

text \<open>
  \<open>SubmitDistributedQueryResults\<close>: \<open>ctx_host\<close> is the agent of the request context,
  if there is one. The result is the error returned and the calls made.
\<close>

definition SubmitDistributedQueryResults ::
  "service \<Rightarrow> Host option \<Rightarrow> (string \<times> row list) list \<Rightarrow> (string \<rightharpoonup> OsqueryStatus) \<Rightarrow> call list
   \<Rightarrow> go_error option \<times> call list" where
  "SubmitDistributedQueryResults svc ctx_host results statuses tr =
     (case ctx_host of
        None \<Rightarrow>
          (Some (osqueryError ''internal error: missing host from request context'' False), tr)
      | Some host \<Rightarrow>
         (case ingest_results svc statuses results
                 \<lparr>loc_host = host, detailUpdated = False, labelResults = Map.empty\<rparr> tr of
            (Some err, loc, tr) \<Rightarrow> (Some err, tr)
          | (None, loc, tr) \<Rightarrow>
             (let (returned, tr) =
                    (if labelResults loc \<noteq> Map.empty then
                       (let now = clock_Now svc tr;
                            tr = tr @ [CallNow];
                            err = ds_RecordLabelQueryExecutions svc tr (loc_host loc)
                                    (labelResults loc) now;
                            tr = tr @ [CallRecordLabelQueryExecutions (loc_host loc)
                                         (labelResults loc) now]
                        in case err of
                             Some err \<Rightarrow>
                               (Some (osqueryError
                                  (''failed to save labels: '' @ Error err) False), tr)
                           | None \<Rightarrow> (None, tr))
                     else (None, tr))
              in case returned of
                   Some err \<Rightarrow> (Some err, tr)
                 | None \<Rightarrow>
                    (let (loc, tr) =
                           (if detailUpdated loc then
                              (loc\<lparr>loc_host := (loc_host loc)\<lparr>DetailUpdateTime := clock_Now svc tr\<rparr>\<rparr>,
                               tr @ [CallNow])
                            else (loc, tr))
                     in if labelResults loc \<noteq> Map.empty \<or> detailUpdated loc then
                          (let err = ds_SaveHost svc tr (loc_host loc);
                               tr = tr @ [CallSaveHost (loc_host loc)]
                           in case err of
                                Some err \<Rightarrow>
                                  (Some (osqueryError
                                     (''failed to update host details: '' @ Error err) False), tr)
                              | None \<Rightarrow> (None, tr))
                        else (None, tr)))))"

section \<open>Notions used to state the properties\<close>

text \<open>An agent as enrollment leaves it: identifier 1 and no detail yet.\<close>

definition enrolled_host :: Host where
  "enrolled_host =
     \<lparr>ID = 1, DetailUpdateTime = 0, HostName = [], UUID = [], Platform = [],
      OsqueryVersion = [], OSVersion = [], Build = [], PlatformLike = [], CodeName = [],
      Uptime = 0, PhysicalMemory = 0, CPUType = [], CPUSubtype = [], CPUBrand = [],
      CPUPhysicalCores = 0, CPULogicalCores = 0, HardwareVendor = [], HardwareModel = [],
      HardwareVersion = [], HardwareSerial = [], ComputerName = [], NetworkInterfaces = [],
      DistributedInterval = 0, ConfigTLSRefresh = 0, LoggerTLSPeriod = 0\<rparr>"

text \<open>
  Collaborators that never fail: every campaign asked for is there and running, and the
  clock stands at 5000.
\<close>

definition reliable :: service where
  "reliable =
     \<lparr>resultStore_WriteResult = (\<lambda>tr res. None),
      ds_DistributedQueryCampaign = (\<lambda>tr i. Inr \<lparr>CampaignID = i, Status = QueryRunning\<rparr>),
      ds_SaveDistributedQueryCampaign = (\<lambda>tr campaign. None),
      ds_NewDistributedQueryExecution = (\<lambda>tr exec. None),
      ds_RecordLabelQueryExecutions = (\<lambda>tr host results t. None),
      ds_SaveHost = (\<lambda>tr host. None),
      clock_Now = (\<lambda>tr. 5000)\<rparr>"

text \<open>
  The value of a flag in the rows of \<open>osquery_flags\<close>, in the words of the
  specification: what the last row of that name parsed to, and \<open>absent\<close> when no row
  has the name.
\<close>

definition flag_value :: "string \<Rightarrow> uint \<Rightarrow> row list \<Rightarrow> uint" where
  "flag_value name absent rows =
     (case filter (\<lambda>row. index row ''name'' = name) rows of
        [] \<Rightarrow> absent
      | r # rs \<Rightarrow> to_uint (fst (Atoi (emptyToZero (index (last (r # rs)) ''value'')))))"

text \<open>The calls that persist the state of an agent.\<close>

fun persists_agent :: "call \<Rightarrow> bool" where
  "persists_agent (CallSaveHost host) = True"
| "persists_agent (CallRecordLabelQueryExecutions host results t) = True"
| "persists_agent c = False"

text \<open>The label that the name of a label query stands for.\<close>

definition label_of :: "string \<Rightarrow> uint" where
  "label_of query = to_uint (fst (Atoi (emptyToZero (TrimPrefix query hostLabelQueryPrefix))))"

text \<open>
  The numeric fields of a row of \<open>network_interface\<close> whose parse error is returned:
  \<open>last_change\<close> when the row has it, \<open>metric\<close>, \<open>mtu\<close> and \<open>type\<close>.
\<close>

definition nic_fields_parse :: "row \<Rightarrow> bool" where
  "nic_fields_parse row =
     ((case row ''last_change'' of
         None \<Rightarrow> True
       | Some lastChange \<Rightarrow> snd (ParseInt (emptyToZero lastChange)) = None)
      \<and> snd (Atoi (emptyToZero (index row ''metric''))) = None
      \<and> snd (Atoi (emptyToZero (index row ''mtu''))) = None
      \<and> snd (Atoi (emptyToZero (index row ''type''))) = None)"

text \<open>The names of the rows of \<open>osquery_flags\<close> that the ingestion reads.\<close>

definition flag_names :: "string list" where
  "flag_names =
     [''distributed_interval'', ''config_tls_refresh'', ''config_refresh'', ''logger_tls_period'']"

text \<open>
  The envelope that \<open>ingestDistributedQuery\<close> publishes for campaign \<open>n\<close> and the
  execution record it writes.
\<close>

definition envelope :: "Host \<Rightarrow> int \<Rightarrow> row list \<Rightarrow> bool \<Rightarrow> DistributedQueryResult" where
  "envelope host n rows failed =
     \<lparr>DistributedQueryCampaignID = to_uint n, ResultHost = host, Rows = rows,
      ResultError = (if failed then Some ''failed'' else None)\<rparr>"

definition audit_record :: "Host \<Rightarrow> int \<Rightarrow> bool \<Rightarrow> DistributedQueryExecution" where
  "audit_record host n failed =
     \<lparr>HostID = ID host, ExecutionCampaignID = to_uint n,
      ExecutionStatus = (if failed then ExecutionFailed else ExecutionSucceeded)\<rparr>"

text \<open>
  The result of campaign \<open>n\<close> was delivered, or it found no subscriber and the orphaned
  campaign was loaded and saved: the answers of the collaborators to the calls made
  after the calls \<open>tr\<close>.
\<close>

definition delivered_or_closed ::
  "service \<Rightarrow> Host \<Rightarrow> int \<Rightarrow> row list \<Rightarrow> bool \<Rightarrow> call list \<Rightarrow> bool" where
  "delivered_or_closed svc host n rows failed tr =
     (case resultStore_WriteResult svc tr (envelope host n rows failed) of
        None \<Rightarrow> True
      | Some err \<Rightarrow>
          is_pubsub_Error err \<and> NoSubscriber err \<and>
          (case ds_DistributedQueryCampaign svc
                  (tr @ [CallWriteResult (envelope host n rows failed)]) (to_uint n) of
             Inl err \<Rightarrow> False
           | Inr campaign \<Rightarrow>
               ds_SaveDistributedQueryCampaign svc
                 (tr @ [CallWriteResult (envelope host n rows failed),
                        CallDistributedQueryCampaign (to_uint n)])
                 (campaign\<lparr>Status := QueryComplete\<rparr>) = None))"

section \<open>Properties of the policy recorder\<close>

lemma append_all: "foldl (\<lambda>ids policyID. ids @ [policyID]) acc xs = acc @ xs"
  by (induction xs arbitrary: acc) simp_all

lemma bind_rows_eq:
  "bind_rows ids results hostID updated (bv, vals) =
     (bv @ replicate (length ids) ''(?,?,?,?)'',
      vals @ concat (map (\<lambda>p. [ArgTime updated, ArgUint p, ArgUint hostID,
                 ArgBoolPtr (case results p of None \<Rightarrow> None | Some b \<Rightarrow> b)]) ids))"
  by (induction ids arbitrary: bv vals) (simp_all add: replicate_app_Cons_same)

lemma bound_rows_concat:
  "bound_rows (concat (map (\<lambda>p. [ArgTime u, ArgUint p, ArgUint h, ArgBoolPtr (f p)]) ids))
     = map (\<lambda>p. (p, f p)) ids"
  by (induction ids) simp_all

lemma bound_policy_ids_concat:
  "bound_policy_ids (concat (map (\<lambda>p. [ArgTime u, ArgUint p, ArgUint h, ArgBoolPtr (f p)]) ids))
     = ids"
  by (induction ids) simp_all

lemma sort_distinct_eq: "distinct xs \<Longrightarrow> sort xs = sorted_list_of_set (set xs)"
  by (simp add: sorted_list_of_set_sort_remdups distinct_remdups_id)

text \<open>
  Claim C1. Whatever the order \<open>iter\<close> in which the range visits the result map (every
  key once), the arguments handed to the writer hold exactly one row per policy
  identifier of the map, the rows are in strictly ascending order of policy identifier,
  each row carries the value the map has for its identifier, and the statement has one
  placeholder group per row.
\<close>

theorem policy_rows_sorted:
  assumes "distinct iter" and "set iter = dom results"
  shows "case RecordPolicyQueryExecutions fmt_v exec iter results hostID updated of
           ((query, vals), err) \<Rightarrow>
             bound_policy_ids vals = sorted_list_of_set (dom results)
           \<and> sorted_wrt (<) (bound_policy_ids vals)
           \<and> distinct (bound_policy_ids vals)
           \<and> set (bound_policy_ids vals) = dom results
           \<and> bound_rows vals = map (\<lambda>p. (p, the (results p))) (sorted_list_of_set (dom results))
           \<and> length vals = 4 * card (dom results)
           \<and> query = policy_insert_sql @ Join (replicate (card (dom results)) ''(?,?,?,?)'') '',''"
proof -
  have fin: "finite (dom results)"
    using assms(2) [symmetric] by simp
  have s: "sort iter = sorted_list_of_set (dom results)"
    using assms by (simp add: sort_distinct_eq)
  have m: "map (\<lambda>p. (p, case results p of None \<Rightarrow> None | Some b \<Rightarrow> b))
             (sorted_list_of_set (dom results))
           = map (\<lambda>p. (p, the (results p))) (sorted_list_of_set (dom results))"
    using fin by (auto simp: domD)
  have c: "length (concat (map (\<lambda>p. [ArgTime updated, ArgUint p, ArgUint hostID,
                 ArgBoolPtr (case results p of None \<Rightarrow> None | Some b \<Rightarrow> b)]) ids))
           = 4 * length ids" for ids
    by (induction ids) simp_all
  show ?thesis
    using fin m
    by (simp add: RecordPolicyQueryExecutions_def append_all s bind_rows_eq
        bound_rows_concat bound_policy_ids_concat c Let_def)
qed

text \<open>The map \<open>{7: true, 3: false, 5: true}\<close>, visited in the order 7, 3, 5.\<close>

theorem policy_rows_sorted_witness:
  "distinct [7, 3, 5 :: uint]
   \<and> set [7, 3, 5 :: uint] = dom [7 \<mapsto> Some True, 3 \<mapsto> Some False, 5 \<mapsto> Some True]
   \<and> bound_rows (snd (fst (RecordPolicyQueryExecutions (\<lambda>vals. []) (\<lambda>q vals. None) [7, 3, 5]
         [7 \<mapsto> Some True, 3 \<mapsto> Some False, 5 \<mapsto> Some True] 1 100)))
       = [(3, Some False), (5, Some True), (7, Some True)]"
proof -
  have d: "distinct [7, 3, 5 :: uint]"
    by simp
  have e: "set [7, 3, 5 :: uint] = dom [7 \<mapsto> Some True, 3 \<mapsto> Some False, 5 \<mapsto> Some True]"
    by auto
  have sl: "sorted_list_of_set {7, 3, 5 :: uint} = [3, 5, 7]"
    by (simp add: sorted_list_of_set.sorted_key_list_of_set_insert_remove)
  show ?thesis
    using policy_rows_sorted [OF d e, of "\<lambda>vals. []" "\<lambda>q vals. None" 1 100] d e
    by (simp add: sl split: prod.splits)
qed

section \<open>Properties of the detail ingestion functions\<close>

text \<open>
  Claim C8. Each of the four ingestion functions that expect exactly one row
  (\<open>os_version\<close>, \<open>osquery_info\<close>, \<open>system_info\<close>, \<open>uptime\<close>), given no row or more
  than one row, returns no error, leaves the agent as it was and logs one warning; the
  same holds when the function is reached through \<open>ingestDetailQuery\<close>. With several
  rows the first row is not used: the agent is unchanged.
\<close>

theorem row_count_mismatch_skips:
  assumes "length rows \<noteq> 1"
  shows "out_err (os_version_IngestFunc host rows) = None
       \<and> out_host (os_version_IngestFunc host rows) = host
       \<and> out_err (osquery_info_IngestFunc host rows) = None
       \<and> out_host (osquery_info_IngestFunc host rows) = host
       \<and> out_err (system_info_IngestFunc host rows) = None
       \<and> out_host (system_info_IngestFunc host rows) = host
       \<and> out_err (uptime_IngestFunc host rows) = None
       \<and> out_host (uptime_IngestFunc host rows) = host
       \<and> length (out_log (os_version_IngestFunc host rows)) = 1
       \<and> length (out_log (osquery_info_IngestFunc host rows)) = 1
       \<and> length (out_log (system_info_IngestFunc host rows)) = 1
       \<and> length (out_log (uptime_IngestFunc host rows)) = 1
       \<and> (\<forall>name \<in> {''os_version'', ''osquery_info'', ''system_info'', ''uptime''}.
            out_err (ingestDetailQuery host (hostDetailQueryPrefix @ name) rows) = None
          \<and> out_host (ingestDetailQuery host (hostDetailQueryPrefix @ name) rows) = host)"
  using assms
  by (simp add: os_version_IngestFunc_def osquery_info_IngestFunc_def
      system_info_IngestFunc_def uptime_IngestFunc_def ingestDetailQuery_def TrimPrefix_def
      HasPrefix_def detailQueries_def)

text \<open>Two rows for \<open>osquery_info\<close>, and no row for \<open>uptime\<close>.\<close>

theorem row_count_mismatch_skips_witness:
  "length [[''version'' \<mapsto> ''4.9.0''], [''version'' \<mapsto> ''5.0.1'']] \<noteq> 1
   \<and> out_host (osquery_info_IngestFunc enrolled_host
        [[''version'' \<mapsto> ''4.9.0''], [''version'' \<mapsto> ''5.0.1'']]) = enrolled_host
   \<and> out_err (osquery_info_IngestFunc enrolled_host
        [[''version'' \<mapsto> ''4.9.0''], [''version'' \<mapsto> ''5.0.1'']]) = None
   \<and> out_host (ingestDetailQuery enrolled_host ''kolide_detail_query_uptime'' []) = enrolled_host"
  using row_count_mismatch_skips
          [of "[[''version'' \<mapsto> ''4.9.0''], [''version'' \<mapsto> ''5.0.1'']]" enrolled_host]
    row_count_mismatch_skips [of "[]" enrolled_host]
  by (simp add: hostDetailQueryPrefix_def)

lemma flag_value_Cons:
  "flag_value name absent (row # rows) =
     (if index row ''name'' = name
      then flag_value name (to_uint (fst (Atoi (emptyToZero (index row ''value''))))) rows
      else flag_value name absent rows)"
  by (simp add: flag_value_def split: list.splits)

lemma flags_loop_values:
  "flags_loop rows host a b = (None, host', a', b') \<Longrightarrow>
     a' = flag_value ''config_tls_refresh'' a rows \<and> b' = flag_value ''config_refresh'' b rows"
proof (induction rows arbitrary: host a b)
  case Nil
  then show ?case by (simp add: flag_value_def)
next
  case (Cons row rows)
  show ?case
    using Cons.prems Cons.IH
    by (simp add: flag_value_Cons split: if_splits prod.splits option.splits)
qed

lemma parse_int64_range:
  "parse_int64 s = (v, None) \<Longrightarrow> - (2 ^ 63) \<le> v \<and> v < 2 ^ 63"
  by (auto simp: parse_int64_def Let_def split: if_splits sum.splits num_err.splits)

lemma to_uint_parsed_zero:
  assumes "Atoi s = (v, None)"
  shows "(to_uint v = 0) = (v = 0)"
proof -
  from assms have "parse_int64 s = (v, None)"
    by (auto simp: Atoi_def split: prod.splits)
  from parse_int64_range [OF this] show ?thesis
    unfolding to_uint_def by (auto simp: word_of_int_eq_0_iff)
qed

lemma ingest_nic_ok: "(\<exists>nic. ingest_nic row = Inr nic) = nic_fields_parse row"
  by (auto simp: ingest_nic_def nic_fields_parse_def Let_def split: option.splits prod.splits)

lemma ingest_nic_counters:
  "ingest_nic row = Inr nic \<Longrightarrow>
     IBytes nic = parse_or_minus_one (index row ''ibytes'')
   \<and> IErrors nic = parse_or_minus_one (index row ''ierrors'')
   \<and> IPackets nic = parse_or_minus_one (index row ''ipackets'')
   \<and> OBytes nic = parse_or_minus_one (index row ''obytes'')
   \<and> OErrors nic = parse_or_minus_one (index row ''oerrors'')
   \<and> OPackets nic = parse_or_minus_one (index row ''opackets'')"
  by (auto simp: ingest_nic_def Let_def split: option.splits prod.splits)

lemma ingest_nics_ok:
  "(\<exists>out. ingest_nics rows acc = Inr out) = (\<forall>row \<in> set rows. nic_fields_parse row)"
proof (induction rows arbitrary: acc)
  case Nil
  show ?case by simp
next
  case (Cons row rows)
  show ?case
  proof (cases "ingest_nic row")
    case (Inl err)
    with ingest_nic_ok [of row] show ?thesis by auto
  next
    case (Inr nic)
    with ingest_nic_ok [of row] Cons.IH [of "acc @ [nic]"] show ?thesis by auto
  qed
qed

lemma ingest_nics_counters:
  "ingest_nics rows acc = Inr out \<Longrightarrow>
     map IBytes out = map IBytes acc @ map (\<lambda>row. parse_or_minus_one (index row ''ibytes'')) rows
   \<and> map IErrors out = map IErrors acc @ map (\<lambda>row. parse_or_minus_one (index row ''ierrors'')) rows
   \<and> map IPackets out = map IPackets acc @ map (\<lambda>row. parse_or_minus_one (index row ''ipackets'')) rows
   \<and> map OBytes out = map OBytes acc @ map (\<lambda>row. parse_or_minus_one (index row ''obytes'')) rows
   \<and> map OErrors out = map OErrors acc @ map (\<lambda>row. parse_or_minus_one (index row ''oerrors'')) rows
   \<and> map OPackets out = map OPackets acc @ map (\<lambda>row. parse_or_minus_one (index row ''opackets'')) rows"
proof (induction rows arbitrary: acc)
  case Nil
  then show ?case by simp
next
  case (Cons row rows)
  from Cons.prems obtain nic where n: "ingest_nic row = Inr nic"
    and r: "ingest_nics rows (acc @ [nic]) = Inr out"
    by (auto split: sum.splits)
  from Cons.IH [OF r] ingest_nic_counters [OF n] show ?case by simp
qed

lemma flags_loop_ok:
  "(fst (flags_loop rows host a b) = None) =
     (\<forall>row \<in> set rows. index row ''name'' \<in> set flag_names \<longrightarrow>
        snd (Atoi (emptyToZero (index row ''value''))) = None)"
proof (induction rows arbitrary: host a b)
  case Nil
  show ?case by simp
next
  case (Cons row rows)
  show ?case
    by (simp add: Cons.IH flag_names_def split: prod.splits option.splits)
qed

lemma network_ok:
  "rows \<noteq> [] \<Longrightarrow> (out_err (network_interface_IngestFunc host rows) = None) = (\<forall>row \<in> set rows. nic_fields_parse row)"
  using ingest_nics_ok [of rows "[]"]
  by (auto simp: network_interface_IngestFunc_def split: sum.splits)

lemma network_counters:
  assumes "rows \<noteq> []" "out_err (network_interface_IngestFunc host rows) = None"
  shows "map IBytes (NetworkInterfaces (out_host (network_interface_IngestFunc host rows)))
          = map (\<lambda>row. parse_or_minus_one (index row ''ibytes'')) rows"
   "map IErrors (NetworkInterfaces (out_host (network_interface_IngestFunc host rows)))
          = map (\<lambda>row. parse_or_minus_one (index row ''ierrors'')) rows"
   "map IPackets (NetworkInterfaces (out_host (network_interface_IngestFunc host rows)))
          = map (\<lambda>row. parse_or_minus_one (index row ''ipackets'')) rows"
   "map OBytes (NetworkInterfaces (out_host (network_interface_IngestFunc host rows)))
          = map (\<lambda>row. parse_or_minus_one (index row ''obytes'')) rows"
   "map OErrors (NetworkInterfaces (out_host (network_interface_IngestFunc host rows)))
          = map (\<lambda>row. parse_or_minus_one (index row ''oerrors'')) rows"
   "map OPackets (NetworkInterfaces (out_host (network_interface_IngestFunc host rows)))
          = map (\<lambda>row. parse_or_minus_one (index row ''opackets'')) rows"
  using assms ingest_nics_counters [of rows "[]"]
  by (auto simp: network_interface_IngestFunc_def split: sum.splits)

lemma system_info_ok:
  "(out_err (system_info_IngestFunc host [row]) = None) =
     (snd (Atoi (emptyToZero (index row ''physical_memory''))) = None
      \<and> snd (Atoi (emptyToZero (index row ''cpu_physical_cores''))) = None
      \<and> snd (Atoi (emptyToZero (index row ''cpu_logical_cores''))) = None)"
  by (auto simp: system_info_IngestFunc_def Let_def split: prod.splits)

lemma uptime_ok:
  "(out_err (uptime_IngestFunc host [row]) = None) =
     (snd (Atoi (emptyToZero (index row ''total_seconds''))) = None)"
  by (auto simp: uptime_IngestFunc_def split: prod.splits option.splits)

lemma flags_ok:
  "(out_err (osquery_flags_IngestFunc host rows) = None) =
     (\<forall>row \<in> set rows. index row ''name'' \<in> set flag_names \<longrightarrow>
        snd (Atoi (emptyToZero (index row ''value''))) = None)"
  using flags_loop_ok [of rows host 0 0]
  by (auto simp: osquery_flags_IngestFunc_def split: prod.splits option.splits)

lemma normalize_examples:
  "emptyToZero [] = ''0''" "Atoi (emptyToZero []) = (0, None)" "ParseInt (emptyToZero []) = (0, None)"
  "Atoi (emptyToZero ''12345'') = (12345, None)" "ParseInt (emptyToZero ''12345'') = (12345, None)"
  "snd (Atoi []) \<noteq> None"
  by (simp_all add: emptyToZero_def Atoi_def ParseInt_def parse_int64_def is_digit_def)

lemma parse_or_minus_one_eq: "parse_or_minus_one s = (if snd (ParseInt (emptyToZero s)) = None then fst (ParseInt (emptyToZero s)) else - 1)"
  by (auto simp: parse_or_minus_one_def split: prod.splits option.splits)

lemma detail_error_kind:
  "out_err (ingestDetailQuery host name rows) = Some err \<Longrightarrow> \<exists>msg. err = osqueryError msg False"
  by (auto simp: ingestDetailQuery_def Let_def split: option.splits prod.splits)

lemma detail_error_iff:
  "map_of detailQueries name = Some (q, f) \<Longrightarrow>
   (out_err (ingestDetailQuery host (hostDetailQueryPrefix @ name) rows) = None) = (out_err (f host rows) = None)"
  by (auto simp: ingestDetailQuery_def Let_def TrimPrefix_def HasPrefix_def split: option.splits prod.splits)

text \<open>
  Claim C6, as amended. Every numeric field is parsed after \<open>emptyToZero\<close>: the empty
  string parses to 0 and \<open>12345\<close> to 12345. In \<open>system_info\<close>, \<open>uptime\<close> and
  \<open>osquery_flags\<close> the ingestion returns an error exactly when one of the numeric
  fields it reads does not parse after the normalization; in \<open>network_interface\<close> it
  does so exactly when \<open>last_change\<close> (if present), \<open>metric\<close>, \<open>mtu\<close> or \<open>type\<close> of
  some row does not parse. The six traffic counters of \<open>network_interface\<close> are the
  exception: a counter that does not parse is stored as -1 and is no error. An error
  of an ingestion function leaves \<open>ingestDetailQuery\<close> as an \<open>osqueryError\<close> that does
  not invalidate the node.
\<close>

theorem numeric_fields_normalized:
  "Atoi (emptyToZero []) = (0, None)
   \<and> ParseInt (emptyToZero []) = (0, None)
   \<and> Atoi (emptyToZero ''12345'') = (12345, None)
   \<and> (out_err (system_info_IngestFunc host [row]) = None) =
       (snd (Atoi (emptyToZero (index row ''physical_memory''))) = None
        \<and> snd (Atoi (emptyToZero (index row ''cpu_physical_cores''))) = None
        \<and> snd (Atoi (emptyToZero (index row ''cpu_logical_cores''))) = None)
   \<and> (out_err (uptime_IngestFunc host [row]) = None) =
       (snd (Atoi (emptyToZero (index row ''total_seconds''))) = None)
   \<and> (out_err (osquery_flags_IngestFunc host rows) = None) =
       (\<forall>row \<in> set rows. index row ''name'' \<in> set flag_names \<longrightarrow>
          snd (Atoi (emptyToZero (index row ''value''))) = None)
   \<and> (rows \<noteq> [] \<longrightarrow>
        (out_err (network_interface_IngestFunc host rows) = None) =
        (\<forall>row \<in> set rows. nic_fields_parse row))
   \<and> (rows \<noteq> [] \<and> out_err (network_interface_IngestFunc host rows) = None \<longrightarrow>
        map IBytes (NetworkInterfaces (out_host (network_interface_IngestFunc host rows)))
          = map (\<lambda>row. parse_or_minus_one (index row ''ibytes'')) rows
      \<and> map IErrors (NetworkInterfaces (out_host (network_interface_IngestFunc host rows)))
          = map (\<lambda>row. parse_or_minus_one (index row ''ierrors'')) rows
      \<and> map IPackets (NetworkInterfaces (out_host (network_interface_IngestFunc host rows)))
          = map (\<lambda>row. parse_or_minus_one (index row ''ipackets'')) rows
      \<and> map OBytes (NetworkInterfaces (out_host (network_interface_IngestFunc host rows)))
          = map (\<lambda>row. parse_or_minus_one (index row ''obytes'')) rows
      \<and> map OErrors (NetworkInterfaces (out_host (network_interface_IngestFunc host rows)))
          = map (\<lambda>row. parse_or_minus_one (index row ''oerrors'')) rows
      \<and> map OPackets (NetworkInterfaces (out_host (network_interface_IngestFunc host rows)))
          = map (\<lambda>row. parse_or_minus_one (index row ''opackets'')) rows)
   \<and> parse_or_minus_one s =
       (if snd (ParseInt (emptyToZero s)) = None then fst (ParseInt (emptyToZero s)) else - 1)
   \<and> (\<forall>err. out_err (ingestDetailQuery host name rows) = Some err \<longrightarrow>
         (\<exists>msg. err = osqueryError msg False))"
proof -
  have counters: "rows \<noteq> [] \<and> out_err (network_interface_IngestFunc host rows) = None \<longrightarrow>
        map IBytes (NetworkInterfaces (out_host (network_interface_IngestFunc host rows)))
          = map (\<lambda>row. parse_or_minus_one (index row ''ibytes'')) rows
      \<and> map IErrors (NetworkInterfaces (out_host (network_interface_IngestFunc host rows)))
          = map (\<lambda>row. parse_or_minus_one (index row ''ierrors'')) rows
      \<and> map IPackets (NetworkInterfaces (out_host (network_interface_IngestFunc host rows)))
          = map (\<lambda>row. parse_or_minus_one (index row ''ipackets'')) rows
      \<and> map OBytes (NetworkInterfaces (out_host (network_interface_IngestFunc host rows)))
          = map (\<lambda>row. parse_or_minus_one (index row ''obytes'')) rows
      \<and> map OErrors (NetworkInterfaces (out_host (network_interface_IngestFunc host rows)))
          = map (\<lambda>row. parse_or_minus_one (index row ''oerrors'')) rows
      \<and> map OPackets (NetworkInterfaces (out_host (network_interface_IngestFunc host rows)))
          = map (\<lambda>row. parse_or_minus_one (index row ''opackets'')) rows"
    using network_counters [of rows host] by blast
  have kind: "\<forall>err. out_err (ingestDetailQuery host name rows) = Some err \<longrightarrow>
         (\<exists>msg. err = osqueryError msg False)"
    using detail_error_kind by blast
  have net: "rows \<noteq> [] \<longrightarrow>
        (out_err (network_interface_IngestFunc host rows) = None) =
        (\<forall>row \<in> set rows. nic_fields_parse row)"
    using network_ok by blast
  show ?thesis
    by (intro conjI normalize_examples system_info_ok uptime_ok flags_ok net counters
        parse_or_minus_one_eq kind)
qed

text \<open>
  An empty \<open>physical_memory\<close> is ingested as 0; an \<open>uptime\<close> that is no number is an
  error; a row of \<open>network_interface\<close> with an unreadable \<open>mtu\<close> is an error.
\<close>

theorem numeric_fields_normalized_witness:
  "out_err (system_info_IngestFunc enrolled_host
      [[''physical_memory'' \<mapsto> [], ''cpu_physical_cores'' \<mapsto> ''4'']]) = None
   \<and> out_err (uptime_IngestFunc enrolled_host [[''total_seconds'' \<mapsto> ''a day'']]) \<noteq> None
   \<and> [[''mtu'' \<mapsto> ''jumbo'']] \<noteq> []
   \<and> out_err (network_interface_IngestFunc enrolled_host [[''mtu'' \<mapsto> ''jumbo'']]) \<noteq> None
   \<and> out_err (osquery_flags_IngestFunc enrolled_host
        [[''name'' \<mapsto> ''logger_tls_period'', ''value'' \<mapsto> []]]) = None"
  using numeric_fields_normalized
          [of enrolled_host "[''physical_memory'' \<mapsto> [], ''cpu_physical_cores'' \<mapsto> ''4'']"
              "[[''mtu'' \<mapsto> ''jumbo'']]"]
    numeric_fields_normalized [of enrolled_host "[''total_seconds'' \<mapsto> ''a day'']"
              "[[''name'' \<mapsto> ''logger_tls_period'', ''value'' \<mapsto> []]]"]
  by (simp add: index_def emptyToZero_def Atoi_def parse_int64_def is_digit_def
      nic_fields_parse_def flag_names_def)

text \<open>
  Claim C6 as stated fails: the counter \<open>ibytes\<close> of the row does not parse after the
  normalization, and yet the ingestion of \<open>network_interface\<close> returns no error and
  stores -1.
\<close>

theorem counter_parse_failure_counterexample:
  "snd (ParseInt (emptyToZero ''abc'')) \<noteq> None
   \<and> out_err (network_interface_IngestFunc enrolled_host [[''ibytes'' \<mapsto> ''abc'']]) = None
   \<and> out_err (ingestDetailQuery enrolled_host ''kolide_detail_query_network_interface''
        [[''ibytes'' \<mapsto> ''abc'']]) = None
   \<and> map IBytes (NetworkInterfaces (out_host (network_interface_IngestFunc enrolled_host
        [[''ibytes'' \<mapsto> ''abc'']]))) = [- 1]"
  by (simp add: network_interface_IngestFunc_def ingest_nic_def parse_or_minus_one_def
      index_def emptyToZero_def Atoi_def ParseInt_def parse_int64_def is_digit_def
      ingestDetailQuery_def TrimPrefix_def HasPrefix_def hostDetailQueryPrefix_def
      detailQueries_def)

lemma flags_loop_two_runs:
  "flags_loop rows h a b = (e, h', a', b') \<Longrightarrow> flags_loop rows g a b = (e2, g', a2, b2) \<Longrightarrow>
     e2 = e \<and> a2 = a' \<and> b2 = b'
   \<and> (DistributedInterval g' = DistributedInterval h'
        \<or> DistributedInterval h' = DistributedInterval h \<and> DistributedInterval g' = DistributedInterval g)
   \<and> (LoggerTLSPeriod g' = LoggerTLSPeriod h'
        \<or> LoggerTLSPeriod h' = LoggerTLSPeriod h \<and> LoggerTLSPeriod g' = LoggerTLSPeriod g)
   \<and> h' = h\<lparr>DistributedInterval := DistributedInterval h', LoggerTLSPeriod := LoggerTLSPeriod h'\<rparr>
   \<and> g' = g\<lparr>DistributedInterval := DistributedInterval g', LoggerTLSPeriod := LoggerTLSPeriod g'\<rparr>"
proof (induction rows arbitrary: h g a b)
  case Nil
  then show ?case by auto
next
  case (Cons row rows)
  show ?case
  proof (cases "index row ''name'' \<in> set flag_names")
    case False
    with Cons.prems Cons.IH [of h a b g] show ?thesis
      by (simp add: flag_names_def)
  next
    case True
    obtain v pe where p: "Atoi (emptyToZero (index row ''value'')) = (v, pe)"
      by (cases "Atoi (emptyToZero (index row ''value''))")
    show ?thesis
    proof (cases pe)
      case (Some err)
      with p Cons.prems True show ?thesis
        by (auto simp: flag_names_def split: if_splits)
    next
      case None
      consider (di) "index row ''name'' = ''distributed_interval''"
        | (ctr) "index row ''name'' = ''config_tls_refresh''"
        | (cr) "index row ''name'' = ''config_refresh''"
        | (ltp) "index row ''name'' = ''logger_tls_period''"
        using True by (auto simp: flag_names_def)
      then show ?thesis
      proof cases
        case di
        with p None Cons.prems
        have 1: "flags_loop rows (h\<lparr>DistributedInterval := to_uint v\<rparr>) a b = (e, h', a', b')"
          and 2: "flags_loop rows (g\<lparr>DistributedInterval := to_uint v\<rparr>) a b = (e2, g', a2, b2)"
          by simp_all
        from Cons.IH [OF 1 2] show ?thesis
          by (auto)
      next
        case ctr
        with p None Cons.prems
        have 1: "flags_loop rows h (to_uint v) b = (e, h', a', b')"
          and 2: "flags_loop rows g (to_uint v) b = (e2, g', a2, b2)"
          by simp_all
        from Cons.IH [OF 1 2] show ?thesis .
      next
        case cr
        with p None Cons.prems
        have 1: "flags_loop rows h a (to_uint v) = (e, h', a', b')"
          and 2: "flags_loop rows g a (to_uint v) = (e2, g', a2, b2)"
          by simp_all
        from Cons.IH [OF 1 2] show ?thesis .
      next
        case ltp
        with p None Cons.prems
        have 1: "flags_loop rows (h\<lparr>LoggerTLSPeriod := to_uint v\<rparr>) a b = (e, h', a', b')"
          and 2: "flags_loop rows (g\<lparr>LoggerTLSPeriod := to_uint v\<rparr>) a b = (e2, g', a2, b2)"
          by simp_all
        from Cons.IH [OF 1 2] show ?thesis
          by (auto)
      qed
    qed
  qed
qed

lemma flags_loop_keeps_refresh:
  "flags_loop rows host a b = (e, host', a', b') \<Longrightarrow> ConfigTLSRefresh host' = ConfigTLSRefresh host"
proof -
  assume l: "flags_loop rows host a b = (e, host', a', b')"
  from flags_loop_two_runs [OF l l]
  have "host' = host\<lparr>DistributedInterval := DistributedInterval host',
                      LoggerTLSPeriod := LoggerTLSPeriod host'\<rparr>"
    by blast
  then have "ConfigTLSRefresh host'
      = ConfigTLSRefresh (host\<lparr>DistributedInterval := DistributedInterval host',
                               LoggerTLSPeriod := LoggerTLSPeriod host'\<rparr>)"
    by simp
  then show ?thesis
    by simp
qed

text \<open>
  Claim C7, as amended. The ingestion of \<open>osquery_flags\<close> returns no error exactly
  when the value of every row of the four flags parses. When it returns no error, the
  agent's \<open>ConfigTLSRefresh\<close> is the value of the legacy flag \<open>config_tls_refresh\<close> if
  that value is not zero, and otherwise (the legacy flag is zero or absent) the value of
  \<open>config_refresh\<close>, zero when that one is absent too: a legacy flag set to zero is
  treated as an absent one. When it returns an error, \<open>ConfigTLSRefresh\<close> is left as
  it was, whatever the legacy flag parsed to. The value of a flag is the conversion to
  \<open>uint\<close> of the number its last row parsed to, which is zero only for the number
  zero (\<open>to_uint_parsed_zero\<close>).
\<close>

theorem legacy_refresh_precedence:
  "(out_err (osquery_flags_IngestFunc host rows) = None) =
     (\<forall>row \<in> set rows. index row ''name'' \<in> set flag_names \<longrightarrow>
        snd (Atoi (emptyToZero (index row ''value''))) = None)
   \<and> (out_err (osquery_flags_IngestFunc host rows) = None \<longrightarrow>
        ConfigTLSRefresh (out_host (osquery_flags_IngestFunc host rows)) =
          (if flag_value ''config_tls_refresh'' 0 rows \<noteq> 0
           then flag_value ''config_tls_refresh'' 0 rows
           else flag_value ''config_refresh'' 0 rows))
   \<and> (out_err (osquery_flags_IngestFunc host rows) \<noteq> None \<longrightarrow>
        ConfigTLSRefresh (out_host (osquery_flags_IngestFunc host rows)) = ConfigTLSRefresh host)"
proof -
  obtain e h a b where l: "flags_loop rows host 0 0 = (e, h, a, b)"
    by (metis prod_cases4)
  have ok: "ConfigTLSRefresh (out_host (osquery_flags_IngestFunc host rows)) =
          (if flag_value ''config_tls_refresh'' 0 rows \<noteq> 0
           then flag_value ''config_tls_refresh'' 0 rows
           else flag_value ''config_refresh'' 0 rows)"
    if "out_err (osquery_flags_IngestFunc host rows) = None"
  proof -
    from that l have e: "e = None"
      by (simp add: osquery_flags_IngestFunc_def split: option.splits)
    from flags_loop_values [OF l [unfolded e]] l e show ?thesis
      by (simp add: osquery_flags_IngestFunc_def)
  qed
  have failed: "ConfigTLSRefresh (out_host (osquery_flags_IngestFunc host rows))
                  = ConfigTLSRefresh host"
    if "out_err (osquery_flags_IngestFunc host rows) \<noteq> None"
  proof -
    from that l obtain err where e: "e = Some err"
      by (cases e) (simp_all add: osquery_flags_IngestFunc_def)
    with l flags_loop_keeps_refresh [OF l] show ?thesis
      by (simp add: osquery_flags_IngestFunc_def)
  qed
  from flags_ok [of host rows] ok failed show ?thesis
    by blast
qed

text \<open>
  A legacy flag of 0 falls back to the successor; a legacy flag of 60 wins over it; with
  a successor that does not parse nothing is stored.
\<close>

theorem legacy_refresh_precedence_witness:
  "out_err (osquery_flags_IngestFunc enrolled_host
      [[''name'' \<mapsto> ''config_tls_refresh'', ''value'' \<mapsto> ''0''],
       [''name'' \<mapsto> ''config_refresh'', ''value'' \<mapsto> ''30'']]) = None
   \<and> ConfigTLSRefresh (out_host (osquery_flags_IngestFunc enrolled_host
      [[''name'' \<mapsto> ''config_tls_refresh'', ''value'' \<mapsto> ''0''],
       [''name'' \<mapsto> ''config_refresh'', ''value'' \<mapsto> ''30'']])) = 30
   \<and> ConfigTLSRefresh (out_host (osquery_flags_IngestFunc enrolled_host
      [[''name'' \<mapsto> ''config_tls_refresh'', ''value'' \<mapsto> ''60''],
       [''name'' \<mapsto> ''config_refresh'', ''value'' \<mapsto> ''30'']])) = 60
   \<and> out_err (osquery_flags_IngestFunc enrolled_host
      [[''name'' \<mapsto> ''config_tls_refresh'', ''value'' \<mapsto> ''60''],
       [''name'' \<mapsto> ''config_refresh'', ''value'' \<mapsto> ''abc'']]) \<noteq> None
   \<and> ConfigTLSRefresh (out_host (osquery_flags_IngestFunc enrolled_host
      [[''name'' \<mapsto> ''config_tls_refresh'', ''value'' \<mapsto> ''60''],
       [''name'' \<mapsto> ''config_refresh'', ''value'' \<mapsto> ''abc'']])) = ConfigTLSRefresh enrolled_host"
  using legacy_refresh_precedence [of enrolled_host
          "[[''name'' \<mapsto> ''config_tls_refresh'', ''value'' \<mapsto> ''0''],
            [''name'' \<mapsto> ''config_refresh'', ''value'' \<mapsto> ''30'']]"]
    legacy_refresh_precedence [of enrolled_host
          "[[''name'' \<mapsto> ''config_tls_refresh'', ''value'' \<mapsto> ''60''],
            [''name'' \<mapsto> ''config_refresh'', ''value'' \<mapsto> ''30'']]"]
    legacy_refresh_precedence [of enrolled_host
          "[[''name'' \<mapsto> ''config_tls_refresh'', ''value'' \<mapsto> ''60''],
            [''name'' \<mapsto> ''config_refresh'', ''value'' \<mapsto> ''abc'']]"]
  by (simp add: flag_value_def flag_names_def index_def emptyToZero_def Atoi_def parse_int64_def
      is_digit_def to_uint_def)

text \<open>
  Claim C7 as stated fails: the legacy flag parsed to 60, the value of \<open>config_refresh\<close>
  does not parse, and the ingestion returns the error without storing 60; the agent's
  \<open>ConfigTLSRefresh\<close> is still 0.
\<close>

theorem legacy_refresh_counterexample:
  "flag_value ''config_tls_refresh'' 0
     [[''name'' \<mapsto> ''config_tls_refresh'', ''value'' \<mapsto> ''60''],
      [''name'' \<mapsto> ''config_refresh'', ''value'' \<mapsto> ''abc'']] = 60
   \<and> out_err (osquery_flags_IngestFunc enrolled_host
        [[''name'' \<mapsto> ''config_tls_refresh'', ''value'' \<mapsto> ''60''],
         [''name'' \<mapsto> ''config_refresh'', ''value'' \<mapsto> ''abc'']]) \<noteq> None
   \<and> ConfigTLSRefresh (out_host (osquery_flags_IngestFunc enrolled_host
        [[''name'' \<mapsto> ''config_tls_refresh'', ''value'' \<mapsto> ''60''],
         [''name'' \<mapsto> ''config_refresh'', ''value'' \<mapsto> ''abc'']])) = 0"
  by (simp add: osquery_flags_IngestFunc_def flag_value_def index_def emptyToZero_def Atoi_def
      parse_int64_def is_digit_def to_uint_def enrolled_host_def)

lemma osquery_flags_idem:
  "out_host (osquery_flags_IngestFunc (out_host (osquery_flags_IngestFunc host rows)) rows)
     = out_host (osquery_flags_IngestFunc host rows)
   \<and> out_err (osquery_flags_IngestFunc (out_host (osquery_flags_IngestFunc host rows)) rows)
     = out_err (osquery_flags_IngestFunc host rows)"
proof -
  obtain e h' a' b' where 1: "flags_loop rows host 0 0 = (e, h', a', b')"
    by (metis prod_cases4)
  define g where "g = out_host (osquery_flags_IngestFunc host rows)"
  obtain e2 g' a2 b2 where 2: "flags_loop rows g 0 0 = (e2, g', a2, b2)"
    by (metis prod_cases4)
  have g: "g = (if e = None then h'\<lparr>ConfigTLSRefresh := (if a' \<noteq> 0 then a' else b')\<rparr> else h')"
    using 1 by (auto simp: g_def osquery_flags_IngestFunc_def)
  from flags_loop_two_runs [OF 1 2]
  have same: "e2 = e" "a2 = a'" "b2 = b'"
    and di: "DistributedInterval g' = DistributedInterval h'
        \<or> DistributedInterval h' = DistributedInterval host \<and> DistributedInterval g' = DistributedInterval g"
    and ltp: "LoggerTLSPeriod g' = LoggerTLSPeriod h'
        \<or> LoggerTLSPeriod h' = LoggerTLSPeriod host \<and> LoggerTLSPeriod g' = LoggerTLSPeriod g"
    and g': "g' = g\<lparr>DistributedInterval := DistributedInterval g', LoggerTLSPeriod := LoggerTLSPeriod g'\<rparr>"
    by blast+
  have "DistributedInterval g = DistributedInterval h'" "LoggerTLSPeriod g = LoggerTLSPeriod h'"
    by (simp_all add: g)
  with di ltp have "DistributedInterval g' = DistributedInterval g" "LoggerTLSPeriod g' = LoggerTLSPeriod g"
    by auto
  with g' have gg: "g' = g" by simp
  have "out_host (osquery_flags_IngestFunc g rows) = g \<and> out_err (osquery_flags_IngestFunc g rows) = e"
    using 2 same gg g by (cases e) (auto simp: osquery_flags_IngestFunc_def)
  moreover have "out_err (osquery_flags_IngestFunc host rows) = e"
    using 1 by (cases e) (auto simp: osquery_flags_IngestFunc_def)
  ultimately show ?thesis by (simp add: g_def)
qed

lemma network_interface_idem:
  "out_host (network_interface_IngestFunc (out_host (network_interface_IngestFunc host rows)) rows)
     = out_host (network_interface_IngestFunc host rows)
   \<and> out_err (network_interface_IngestFunc (out_host (network_interface_IngestFunc host rows)) rows)
     = out_err (network_interface_IngestFunc host rows)"
  by (simp add: network_interface_IngestFunc_def split: sum.splits)

lemma os_version_idem:
  "out_host (os_version_IngestFunc (out_host (os_version_IngestFunc host rows)) rows)
     = out_host (os_version_IngestFunc host rows)
   \<and> out_err (os_version_IngestFunc (out_host (os_version_IngestFunc host rows)) rows)
     = out_err (os_version_IngestFunc host rows)"
  by (simp add: os_version_IngestFunc_def Let_def split: option.splits)

lemma osquery_info_idem:
  "out_host (osquery_info_IngestFunc (out_host (osquery_info_IngestFunc host rows)) rows)
     = out_host (osquery_info_IngestFunc host rows)
   \<and> out_err (osquery_info_IngestFunc (out_host (osquery_info_IngestFunc host rows)) rows)
     = out_err (osquery_info_IngestFunc host rows)"
  by (simp add: osquery_info_IngestFunc_def)

lemma system_info_idem:
  "out_host (system_info_IngestFunc (out_host (system_info_IngestFunc host rows)) rows)
     = out_host (system_info_IngestFunc host rows)
   \<and> out_err (system_info_IngestFunc (out_host (system_info_IngestFunc host rows)) rows)
     = out_err (system_info_IngestFunc host rows)"
  by (simp add: system_info_IngestFunc_def Let_def split: prod.splits)

lemma uptime_idem:
  "out_host (uptime_IngestFunc (out_host (uptime_IngestFunc host rows)) rows)
     = out_host (uptime_IngestFunc host rows)
   \<and> out_err (uptime_IngestFunc (out_host (uptime_IngestFunc host rows)) rows)
     = out_err (uptime_IngestFunc host rows)"
  by (simp add: uptime_IngestFunc_def split: prod.splits option.splits)

text \<open>
  Claim C9. For every entry of the registry \<open>detailQueries\<close> and every list of rows,
  running the ingestion function on the agent it has just produced gives the same agent
  and the same error again. The same holds for \<open>ingestDetailQuery\<close> under any name.
\<close>

theorem detail_ingestion_idempotent:
  "(\<forall>(name, query, ingestFunc) \<in> set detailQueries.
      out_host (ingestFunc (out_host (ingestFunc host rows)) rows) = out_host (ingestFunc host rows)
    \<and> out_err (ingestFunc (out_host (ingestFunc host rows)) rows) = out_err (ingestFunc host rows))
   \<and> out_host (ingestDetailQuery (out_host (ingestDetailQuery host name rows)) name rows)
       = out_host (ingestDetailQuery host name rows)
   \<and> out_err (ingestDetailQuery (out_host (ingestDetailQuery host name rows)) name rows)
       = out_err (ingestDetailQuery host name rows)"
proof -
  have reg: "\<forall>(name, query, ingestFunc) \<in> set detailQueries.
      out_host (ingestFunc (out_host (ingestFunc host rows)) rows) = out_host (ingestFunc host rows)
    \<and> out_err (ingestFunc (out_host (ingestFunc host rows)) rows) = out_err (ingestFunc host rows)"
    for host
    using network_interface_idem [of host rows] os_version_idem [of host rows]
      osquery_flags_idem [of host rows] osquery_info_idem [of host rows]
      system_info_idem [of host rows] uptime_idem [of host rows]
    by (simp add: detailQueries_def)
  have det: "out_host (ingestDetailQuery (out_host (ingestDetailQuery host name rows)) name rows)
       = out_host (ingestDetailQuery host name rows)
   \<and> out_err (ingestDetailQuery (out_host (ingestDetailQuery host name rows)) name rows)
       = out_err (ingestDetailQuery host name rows)"
  proof (cases "map_of detailQueries (TrimPrefix name hostDetailQueryPrefix)")
    case None
    then show ?thesis by (simp add: ingestDetailQuery_def)
  next
    case (Some qf)
    obtain query ingestFunc where qf: "qf = (query, ingestFunc)" by (cases qf)
    from Some qf have "(TrimPrefix name hostDetailQueryPrefix, query, ingestFunc) \<in> set detailQueries"
      by (simp add: map_of_SomeD)
    with reg [of host]
    have i: "out_host (ingestFunc (out_host (ingestFunc host rows)) rows) = out_host (ingestFunc host rows)"
      "out_err (ingestFunc (out_host (ingestFunc host rows)) rows) = out_err (ingestFunc host rows)"
      by auto
    have h: "out_host (ingestDetailQuery h name rows) = out_host (ingestFunc h rows)" for h
      using Some qf by (simp add: ingestDetailQuery_def Let_def split: option.splits)
    have e: "out_err (ingestDetailQuery h name rows)
        = map_option (\<lambda>err. osqueryError (''ingesting query '' @ name @ '': '' @ Error err) False)
            (out_err (ingestFunc h rows))" for h
      using Some qf by (simp add: ingestDetailQuery_def Let_def split: option.splits)
    show ?thesis by (simp add: h e i)
  qed
  from reg [of host] det show ?thesis by blast
qed

text \<open>
  The row of a CentOS 6 agent ingested by \<open>os_version\<close>: the second run changes nothing,
  while the first one did.
\<close>

theorem detail_ingestion_idempotent_witness:
  "(''os_version'', ''select * from os_version limit 1'', os_version_IngestFunc) \<in> set detailQueries
   \<and> out_host (os_version_IngestFunc (out_host (os_version_IngestFunc enrolled_host
        [[''name'' \<mapsto> ''CentOS'', ''major'' \<mapsto> ''6'', ''minor'' \<mapsto> ''10'']])) 
        [[''name'' \<mapsto> ''CentOS'', ''major'' \<mapsto> ''6'', ''minor'' \<mapsto> ''10'']])
     = out_host (os_version_IngestFunc enrolled_host
        [[''name'' \<mapsto> ''CentOS'', ''major'' \<mapsto> ''6'', ''minor'' \<mapsto> ''10'']])
   \<and> OSVersion (out_host (os_version_IngestFunc enrolled_host
        [[''name'' \<mapsto> ''CentOS'', ''major'' \<mapsto> ''6'', ''minor'' \<mapsto> ''10'']])) = ''CentOS 6.10''
   \<and> Platform (out_host (os_version_IngestFunc enrolled_host
        [[''name'' \<mapsto> ''CentOS'', ''major'' \<mapsto> ''6'', ''minor'' \<mapsto> ''10'']])) = ''centos''"
proof -
  have m: "(''os_version'', ''select * from os_version limit 1'', os_version_IngestFunc)
             \<in> set detailQueries"
    by (simp add: detailQueries_def)
  have v: "OSVersion (out_host (os_version_IngestFunc enrolled_host
        [[''name'' \<mapsto> ''CentOS'', ''major'' \<mapsto> ''6'', ''minor'' \<mapsto> ''10'']])) = ''CentOS 6.10''
     \<and> Platform (out_host (os_version_IngestFunc enrolled_host
        [[''name'' \<mapsto> ''CentOS'', ''major'' \<mapsto> ''6'', ''minor'' \<mapsto> ''10'']])) = ''centos''"
    by code_simp
  from detail_ingestion_idempotent
         [of enrolled_host "[[''name'' \<mapsto> ''CentOS'', ''major'' \<mapsto> ''6'', ''minor'' \<mapsto> ''10'']]"]
       m v
  show ?thesis by blast
qed

section \<open>Properties of the collection of distributed query results\<close>

lemma ingestDistributedQuery_unfold:
  assumes "Atoi (emptyToZero (TrimPrefix name hostDistributedQueryPrefix)) = (n, None)"
  shows "ingestDistributedQuery svc host name rows failed tr =
     (case resultStore_WriteResult svc tr (envelope host n rows failed) of
        None \<Rightarrow>
          (case ds_NewDistributedQueryExecution svc
                  (tr @ [CallWriteResult (envelope host n rows failed)])
                  (audit_record host n failed) of
             None \<Rightarrow> None
           | Some err \<Rightarrow> Some (osqueryError (''recording execution: '' @ Error err) False),
           tr @ [CallWriteResult (envelope host n rows failed),
                 CallNewDistributedQueryExecution (audit_record host n failed)])
      | Some err \<Rightarrow>
          if \<not> is_pubsub_Error err \<or> \<not> NoSubscriber err then
            (Some (osqueryError (''writing results: '' @ Error err) False),
             tr @ [CallWriteResult (envelope host n rows failed)])
          else
            (case ds_DistributedQueryCampaign svc
                    (tr @ [CallWriteResult (envelope host n rows failed)]) (to_uint n) of
               Inl err \<Rightarrow>
                 (Some (osqueryError (''loading orphaned campaign: '' @ Error err) False),
                  tr @ [CallWriteResult (envelope host n rows failed),
                        CallDistributedQueryCampaign (to_uint n)])
             | Inr campaign \<Rightarrow>
                 (case ds_SaveDistributedQueryCampaign svc
                         (tr @ [CallWriteResult (envelope host n rows failed),
                                CallDistributedQueryCampaign (to_uint n)])
                         (campaign\<lparr>Status := QueryComplete\<rparr>) of
                    Some err \<Rightarrow>
                      (Some (osqueryError (''closing orphaned campaign: '' @ Error err) False),
                       tr @ [CallWriteResult (envelope host n rows failed),
                             CallDistributedQueryCampaign (to_uint n),
                             CallSaveDistributedQueryCampaign (campaign\<lparr>Status := QueryComplete\<rparr>)])
                  | None \<Rightarrow>
                      (case ds_NewDistributedQueryExecution svc
                              (tr @ [CallWriteResult (envelope host n rows failed),
                                     CallDistributedQueryCampaign (to_uint n),
                                     CallSaveDistributedQueryCampaign
                                       (campaign\<lparr>Status := QueryComplete\<rparr>)])
                              (audit_record host n failed) of
                         None \<Rightarrow> None
                       | Some err \<Rightarrow>
                           Some (osqueryError (''recording execution: '' @ Error err) False),
                       tr @ [CallWriteResult (envelope host n rows failed),
                             CallDistributedQueryCampaign (to_uint n),
                             CallSaveDistributedQueryCampaign (campaign\<lparr>Status := QueryComplete\<rparr>),
                             CallNewDistributedQueryExecution (audit_record host n failed)]))))"
proof -
  have res: "(if failed
              then \<lparr>DistributedQueryCampaignID = to_uint n, ResultHost = host, Rows = rows,
                    ResultError = None\<rparr>\<lparr>ResultError := Some ''failed''\<rparr>
              else \<lparr>DistributedQueryCampaignID = to_uint n, ResultHost = host, Rows = rows,
                    ResultError = None\<rparr>) = envelope host n rows failed"
    by (simp add: envelope_def)
  have exec: "\<lparr>HostID = ID host, ExecutionCampaignID = to_uint n,
               ExecutionStatus = (if failed then ExecutionFailed else ExecutionSucceeded)\<rparr>
             = audit_record host n failed"
    by (simp add: audit_record_def)
  show ?thesis
    unfolding ingestDistributedQuery_def Let_def assms prod.case option.case res exec
    by (simp split: option.split sum.split)
qed

text \<open>
  Claim C2, as amended. Let the campaign identifier parse and the publication of the
  envelope fail with error \<open>err\<close>. If \<open>err\<close> is a no-subscriber condition, the
  campaign is loaded, and when the datastore returns it, it is saved with status
  \<open>QueryComplete\<close>. The publication failure is then not reported: the submission
  returns no error when loading and saving the campaign and recording the execution
  succeed, and when one of the three fails it returns the error of that call ("loading
  orphaned campaign", "closing orphaned campaign", "recording execution") and makes no
  further call. If \<open>err\<close> is anything else, the submission fails with the
  \<open>osqueryError\<close> "writing results", which does not invalidate the node, and the
  datastore is not called.
\<close>

theorem orphaned_campaign_closed:
  assumes "Atoi (emptyToZero (TrimPrefix name hostDistributedQueryPrefix)) = (n, None)"
    and "resultStore_WriteResult svc tr (envelope host n rows failed) = Some err"
  shows "(is_pubsub_Error err \<and> NoSubscriber err \<longrightarrow>
            CallDistributedQueryCampaign (to_uint n)
              \<in> set (snd (ingestDistributedQuery svc host name rows failed tr))
          \<and> fst (ingestDistributedQuery svc host name rows failed tr)
              \<noteq> Some (osqueryError (''writing results: '' @ Error err) False)
          \<and> (\<forall>e. ds_DistributedQueryCampaign svc
                  (tr @ [CallWriteResult (envelope host n rows failed)]) (to_uint n) = Inl e
                \<longrightarrow>
                  ingestDistributedQuery svc host name rows failed tr =
                    (Some (osqueryError (''loading orphaned campaign: '' @ Error e) False),
                     tr @ [CallWriteResult (envelope host n rows failed),
                           CallDistributedQueryCampaign (to_uint n)]))
          \<and> (\<forall>campaign.
                ds_DistributedQueryCampaign svc
                  (tr @ [CallWriteResult (envelope host n rows failed)]) (to_uint n) = Inr campaign
                \<longrightarrow>
                  CallSaveDistributedQueryCampaign (campaign\<lparr>Status := QueryComplete\<rparr>)
                    \<in> set (snd (ingestDistributedQuery svc host name rows failed tr))
                \<and> (\<forall>e. ds_SaveDistributedQueryCampaign svc
                      (tr @ [CallWriteResult (envelope host n rows failed),
                             CallDistributedQueryCampaign (to_uint n)])
                      (campaign\<lparr>Status := QueryComplete\<rparr>) = Some e
                    \<longrightarrow>
                      ingestDistributedQuery svc host name rows failed tr =
                        (Some (osqueryError (''closing orphaned campaign: '' @ Error e) False),
                         tr @ [CallWriteResult (envelope host n rows failed),
                               CallDistributedQueryCampaign (to_uint n),
                               CallSaveDistributedQueryCampaign
                                 (campaign\<lparr>Status := QueryComplete\<rparr>)]))
                \<and> (ds_SaveDistributedQueryCampaign svc
                      (tr @ [CallWriteResult (envelope host n rows failed),
                             CallDistributedQueryCampaign (to_uint n)])
                      (campaign\<lparr>Status := QueryComplete\<rparr>) = None
                    \<longrightarrow>
                      (\<forall>e. ds_NewDistributedQueryExecution svc
                             (tr @ [CallWriteResult (envelope host n rows failed),
                                    CallDistributedQueryCampaign (to_uint n),
                                    CallSaveDistributedQueryCampaign
                                      (campaign\<lparr>Status := QueryComplete\<rparr>)])
                             (audit_record host n failed) = Some e
                           \<longrightarrow>
                             ingestDistributedQuery svc host name rows failed tr =
                               (Some (osqueryError (''recording execution: '' @ Error e) False),
                                tr @ [CallWriteResult (envelope host n rows failed),
                                      CallDistributedQueryCampaign (to_uint n),
                                      CallSaveDistributedQueryCampaign
                                        (campaign\<lparr>Status := QueryComplete\<rparr>),
                                      CallNewDistributedQueryExecution
                                        (audit_record host n failed)]))
                    \<and> (ds_NewDistributedQueryExecution svc
                             (tr @ [CallWriteResult (envelope host n rows failed),
                                    CallDistributedQueryCampaign (to_uint n),
                                    CallSaveDistributedQueryCampaign
                                      (campaign\<lparr>Status := QueryComplete\<rparr>)])
                             (audit_record host n failed) = None
                           \<longrightarrow>
                             ingestDistributedQuery svc host name rows failed tr =
                               (None,
                                tr @ [CallWriteResult (envelope host n rows failed),
                                      CallDistributedQueryCampaign (to_uint n),
                                      CallSaveDistributedQueryCampaign
                                        (campaign\<lparr>Status := QueryComplete\<rparr>),
                                      CallNewDistributedQueryExecution
                                        (audit_record host n failed)])))))
       \<and> (\<not> (is_pubsub_Error err \<and> NoSubscriber err) \<longrightarrow>
            ingestDistributedQuery svc host name rows failed tr =
              (Some (osqueryError (''writing results: '' @ Error err) False),
               tr @ [CallWriteResult (envelope host n rows failed)])
          \<and> \<not> NodeInvalid (osqueryError (''writing results: '' @ Error err) False))"
proof (cases "is_pubsub_Error err \<and> NoSubscriber err")
  case False
  then have "ingestDistributedQuery svc host name rows failed tr =
              (Some (osqueryError (''writing results: '' @ Error err) False),
               tr @ [CallWriteResult (envelope host n rows failed)])"
    by (simp add: ingestDistributedQuery_unfold [OF assms(1)] assms(2))
  with False show ?thesis
    by simp
next
  case True
  show ?thesis
  proof (cases "ds_DistributedQueryCampaign svc
                  (tr @ [CallWriteResult (envelope host n rows failed)]) (to_uint n)")
    case (Inl e)
    with True show ?thesis
      by (simp add: ingestDistributedQuery_unfold [OF assms(1)] assms(2))
  next
    case (Inr campaign)
    show ?thesis
    proof (cases "ds_SaveDistributedQueryCampaign svc
                      (tr @ [CallWriteResult (envelope host n rows failed),
                             CallDistributedQueryCampaign (to_uint n)])
                      (campaign\<lparr>Status := QueryComplete\<rparr>)")
      case (Some e)
      with True Inr show ?thesis
        by (simp add: ingestDistributedQuery_unfold [OF assms(1)] assms(2))
    next
      case None
      show ?thesis
      proof (cases "ds_NewDistributedQueryExecution svc
                             (tr @ [CallWriteResult (envelope host n rows failed),
                                    CallDistributedQueryCampaign (to_uint n),
                                    CallSaveDistributedQueryCampaign
                                      (campaign\<lparr>Status := QueryComplete\<rparr>)])
                             (audit_record host n failed)")
        case (Some e)
        with True Inr \<open>ds_SaveDistributedQueryCampaign svc
                      (tr @ [CallWriteResult (envelope host n rows failed),
                             CallDistributedQueryCampaign (to_uint n)])
                      (campaign\<lparr>Status := QueryComplete\<rparr>) = None\<close>
        show ?thesis
          by (simp add: ingestDistributedQuery_unfold [OF assms(1)] assms(2))
      next
        case None
        with True Inr \<open>ds_SaveDistributedQueryCampaign svc
                      (tr @ [CallWriteResult (envelope host n rows failed),
                             CallDistributedQueryCampaign (to_uint n)])
                      (campaign\<lparr>Status := QueryComplete\<rparr>) = None\<close>
        show ?thesis
          by (simp add: ingestDistributedQuery_unfold [OF assms(1)] assms(2))
      qed
    qed
  qed
qed

text \<open>
  Campaign 42 has lost its subscriber: it is loaded and saved as complete, the failed
  execution is recorded, and the submission returns no error.
\<close>

theorem orphaned_campaign_closed_witness:
  "Atoi (emptyToZero (TrimPrefix ''kolide_distributed_query_42'' hostDistributedQueryPrefix))
     = (42, None)
   \<and> ingestDistributedQuery
        (reliable\<lparr>resultStore_WriteResult := (\<lambda>tr res. Some (pubsubError ''no subscriber'' True))\<rparr>)
        enrolled_host ''kolide_distributed_query_42'' [] True []
      = (None,
         [CallWriteResult (envelope enrolled_host 42 [] True),
          CallDistributedQueryCampaign 42,
          CallSaveDistributedQueryCampaign \<lparr>CampaignID = 42, Status = QueryComplete\<rparr>,
          CallNewDistributedQueryExecution (audit_record enrolled_host 42 True)])
   \<and> fst (ingestDistributedQuery
        (reliable\<lparr>resultStore_WriteResult := (\<lambda>tr res. Some (otherError ''connection refused''))\<rparr>)
        enrolled_host ''kolide_distributed_query_42'' [] True [])
      = Some (osqueryError ''writing results: connection refused'' False)"
proof -
  have p: "Atoi (emptyToZero (TrimPrefix ''kolide_distributed_query_42'' hostDistributedQueryPrefix))
     = (42, None)"
    by (simp add: TrimPrefix_def HasPrefix_def hostDistributedQueryPrefix_def emptyToZero_def
        Atoi_def parse_int64_def is_digit_def)
  have w: "resultStore_WriteResult
             (reliable\<lparr>resultStore_WriteResult := (\<lambda>tr res. Some (otherError ''connection refused''))\<rparr>)
             [] (envelope enrolled_host 42 [] True) = Some (otherError ''connection refused'')"
    by simp
  have full: "ingestDistributedQuery
        (reliable\<lparr>resultStore_WriteResult := (\<lambda>tr res. Some (pubsubError ''no subscriber'' True))\<rparr>)
        enrolled_host ''kolide_distributed_query_42'' [] True []
      = (None,
         [CallWriteResult (envelope enrolled_host 42 [] True),
          CallDistributedQueryCampaign 42,
          CallSaveDistributedQueryCampaign \<lparr>CampaignID = 42, Status = QueryComplete\<rparr>,
          CallNewDistributedQueryExecution (audit_record enrolled_host 42 True)])"
    by (simp add: ingestDistributedQuery_unfold [OF p] reliable_def to_uint_def)
  from orphaned_campaign_closed [OF p w] p full show ?thesis
    by simp
qed

text \<open>
  Claim C2 as stated fails: the publication finds no subscriber, the datastore cannot
  load the campaign, and the submission fails with an ingestion error; no campaign is
  saved.
\<close>

theorem orphaned_campaign_counterexample:
  "ingestDistributedQuery
     (reliable\<lparr>resultStore_WriteResult := (\<lambda>tr res. Some (pubsubError ''no subscriber'' True)),
               ds_DistributedQueryCampaign := (\<lambda>tr i. Inl (otherError ''connection lost''))\<rparr>)
     enrolled_host ''kolide_distributed_query_42'' [] False []
   = (Some (osqueryError ''loading orphaned campaign: connection lost'' False),
      [CallWriteResult (envelope enrolled_host 42 [] False), CallDistributedQueryCampaign 42])"
proof -
  have p: "Atoi (emptyToZero (TrimPrefix ''kolide_distributed_query_42'' hostDistributedQueryPrefix))
     = (42, None)"
    by (simp add: TrimPrefix_def HasPrefix_def hostDistributedQueryPrefix_def emptyToZero_def
        Atoi_def parse_int64_def is_digit_def)
  show ?thesis
    by (simp add: ingestDistributedQuery_unfold [OF p] reliable_def to_uint_def)
qed

text \<open>
  Claim C3, as amended. When the campaign identifier parses, the calls that
  \<open>ingestDistributedQuery\<close> adds contain the execution record (succeeded or failed
  according to the reported status) exactly when the result was delivered, or found no
  subscriber and the orphaned campaign was loaded and saved. Otherwise, that is when the
  publication fails for another reason or the orphaned campaign cannot be loaded or
  saved, no execution record is written and the submission returns an error.
\<close>

theorem audit_record_after_delivery:
  assumes "Atoi (emptyToZero (TrimPrefix name hostDistributedQueryPrefix)) = (n, None)"
  shows "\<exists>calls. snd (ingestDistributedQuery svc host name rows failed tr) = tr @ calls
           \<and> (CallNewDistributedQueryExecution (audit_record host n failed) \<in> set calls)
               = delivered_or_closed svc host n rows failed tr
           \<and> ExecutionStatus (audit_record host n failed)
               = (if failed then ExecutionFailed else ExecutionSucceeded)
           \<and> (\<not> delivered_or_closed svc host n rows failed tr \<longrightarrow>
                 (\<forall>exec. CallNewDistributedQueryExecution exec \<notin> set calls)
               \<and> fst (ingestDistributedQuery svc host name rows failed tr) \<noteq> None)"
proof (cases "resultStore_WriteResult svc tr (envelope host n rows failed)")
  case None
  then show ?thesis
    by (simp add: ingestDistributedQuery_unfold [OF assms] delivered_or_closed_def
        audit_record_def)
next
  case (Some err)
  show ?thesis
  proof (cases "is_pubsub_Error err \<and> NoSubscriber err")
    case False
    with Some have "ingestDistributedQuery svc host name rows failed tr =
              (Some (osqueryError (''writing results: '' @ Error err) False),
               tr @ [CallWriteResult (envelope host n rows failed)])"
      by (simp add: ingestDistributedQuery_unfold [OF assms])
    moreover from Some False have "\<not> delivered_or_closed svc host n rows failed tr"
      by (auto simp: delivered_or_closed_def)
    ultimately show ?thesis
      by (simp add: audit_record_def)
  next
    case True
    show ?thesis
    proof (cases "ds_DistributedQueryCampaign svc
                    (tr @ [CallWriteResult (envelope host n rows failed)]) (to_uint n)")
      case (Inl e)
      with Some True show ?thesis
        by (simp add: ingestDistributedQuery_unfold [OF assms] delivered_or_closed_def
            audit_record_def)
    next
      case (Inr campaign)
      show ?thesis
      proof (cases "ds_SaveDistributedQueryCampaign svc
                      (tr @ [CallWriteResult (envelope host n rows failed),
                             CallDistributedQueryCampaign (to_uint n)])
                      (campaign\<lparr>Status := QueryComplete\<rparr>)")
        case None
        with Some True Inr show ?thesis
          by (simp add: ingestDistributedQuery_unfold [OF assms] delivered_or_closed_def
              audit_record_def)
      next
        case (Some e)
        with \<open>resultStore_WriteResult svc tr (envelope host n rows failed) = Some err\<close> True Inr
        show ?thesis
          by (simp add: ingestDistributedQuery_unfold [OF assms] delivered_or_closed_def
              audit_record_def)
      qed
    qed
  qed
qed

text \<open>With collaborators that do not fail, the execution of campaign 42 is recorded.\<close>

theorem audit_record_after_delivery_witness:
  "Atoi (emptyToZero (TrimPrefix ''kolide_distributed_query_42'' hostDistributedQueryPrefix))
     = (42, None)
   \<and> delivered_or_closed reliable enrolled_host 42 [] False []
   \<and> CallNewDistributedQueryExecution
        \<lparr>HostID = 1, ExecutionCampaignID = 42, ExecutionStatus = ExecutionSucceeded\<rparr>
       \<in> set (snd (ingestDistributedQuery reliable enrolled_host
                    ''kolide_distributed_query_42'' [] False []))"
proof -
  have p: "Atoi (emptyToZero (TrimPrefix ''kolide_distributed_query_42'' hostDistributedQueryPrefix))
     = (42, None)"
    by (simp add: TrimPrefix_def HasPrefix_def hostDistributedQueryPrefix_def emptyToZero_def
        Atoi_def parse_int64_def is_digit_def)
  have d: "delivered_or_closed reliable enrolled_host 42 [] False []"
    by (simp add: delivered_or_closed_def reliable_def)
  have a: "audit_record enrolled_host 42 False
           = \<lparr>HostID = 1, ExecutionCampaignID = 42, ExecutionStatus = ExecutionSucceeded\<rparr>"
    by (simp add: audit_record_def enrolled_host_def to_uint_def)
  from audit_record_after_delivery [OF p, of reliable enrolled_host "[]" False "[]"] p d a
  show ?thesis
    by auto
qed

text \<open>
  Claim C3 as stated fails. When the publication fails for a reason other than a
  missing subscriber, and when closing the orphaned campaign fails, the submission
  returns without a call to \<open>NewDistributedQueryExecution\<close>.
\<close>

theorem audit_record_counterexample:
  "snd (ingestDistributedQuery
          (reliable\<lparr>resultStore_WriteResult := (\<lambda>tr res. Some (otherError ''connection refused''))\<rparr>)
          enrolled_host ''kolide_distributed_query_42'' [] False [])
     = [CallWriteResult (envelope enrolled_host 42 [] False)]
   \<and> snd (ingestDistributedQuery
          (reliable\<lparr>resultStore_WriteResult := (\<lambda>tr res. Some (pubsubError ''no subscriber'' True)),
                    ds_SaveDistributedQueryCampaign := (\<lambda>tr campaign. Some (otherError ''deadlock''))\<rparr>)
          enrolled_host ''kolide_distributed_query_42'' [] False [])
     = [CallWriteResult (envelope enrolled_host 42 [] False),
        CallDistributedQueryCampaign 42,
        CallSaveDistributedQueryCampaign \<lparr>CampaignID = 42, Status = QueryComplete\<rparr>]"
proof -
  have p: "Atoi (emptyToZero (TrimPrefix ''kolide_distributed_query_42'' hostDistributedQueryPrefix))
     = (42, None)"
    by (simp add: TrimPrefix_def HasPrefix_def hostDistributedQueryPrefix_def emptyToZero_def
        Atoi_def parse_int64_def is_digit_def)
  show ?thesis
    by (simp add: ingestDistributedQuery_unfold [OF p] reliable_def to_uint_def)
qed

section \<open>Properties of the submission of results\<close>

lemma label_prefix_not_detail:
  assumes "HasPrefix query hostLabelQueryPrefix"
  shows "\<not> HasPrefix query hostDetailQueryPrefix"
proof
  assume "HasPrefix query hostDetailQueryPrefix"
  then have d: "take (length hostDetailQueryPrefix) query = hostDetailQueryPrefix"
    by (simp add: HasPrefix_def)
  from assms have l: "take (length hostLabelQueryPrefix) query = hostLabelQueryPrefix"
    by (simp add: HasPrefix_def)
  have "take (length hostLabelQueryPrefix) (take (length hostDetailQueryPrefix) query)
          = take (length hostLabelQueryPrefix) query"
    by (simp add: hostDetailQueryPrefix_def hostLabelQueryPrefix_def)
  with d l have "take (length hostLabelQueryPrefix) hostDetailQueryPrefix = hostLabelQueryPrefix"
    by simp
  then show False
    by (simp add: hostDetailQueryPrefix_def hostLabelQueryPrefix_def)
qed

lemma ingestDistributedQuery_calls:
  "\<exists>calls. snd (ingestDistributedQuery svc host name rows failed tr) = tr @ calls
     \<and> (\<forall>c \<in> set calls. \<not> persists_agent c)"
proof -
  obtain n pe where p: "Atoi (emptyToZero (TrimPrefix name hostDistributedQueryPrefix)) = (n, pe)"
    by (cases "Atoi (emptyToZero (TrimPrefix name hostDistributedQueryPrefix))")
  show ?thesis
  proof (cases pe)
    case (Some err)
    with p show ?thesis
      by (simp add: ingestDistributedQuery_def)
  next
    case None
    with p have q: "Atoi (emptyToZero (TrimPrefix name hostDistributedQueryPrefix)) = (n, None)"
      by simp
    show ?thesis
      by (simp add: ingestDistributedQuery_unfold [OF q] split: option.split sum.split)
  qed
qed

lemma ingest_result_calls:
  assumes "ingest_result svc statuses query rows loc tr = (e, loc', tr')"
  shows "\<exists>calls. tr' = tr @ calls \<and> (\<forall>c \<in> set calls. \<not> persists_agent c)"
proof -
  consider (detail) "HasPrefix query hostDetailQueryPrefix"
    | (label) "\<not> HasPrefix query hostDetailQueryPrefix" "HasPrefix query hostLabelQueryPrefix"
    | (distributed) "\<not> HasPrefix query hostDetailQueryPrefix"
        "\<not> HasPrefix query hostLabelQueryPrefix" "HasPrefix query hostDistributedQueryPrefix"
    | (unknown) "\<not> HasPrefix query hostDetailQueryPrefix"
        "\<not> HasPrefix query hostLabelQueryPrefix" "\<not> HasPrefix query hostDistributedQueryPrefix"
    by blast
  then show ?thesis
  proof cases
    case detail
    with assms have "tr' = tr @ map CallLog (out_log (ingestDetailQuery (loc_host loc) query rows))"
      by (auto simp: ingest_result_def Let_def)
    then show ?thesis by auto
  next
    case label
    with assms have "tr' = tr"
      by (auto simp: ingest_result_def split: prod.splits)
    then show ?thesis by simp
  next
    case distributed
    define failed where
      "failed = (case statuses query of Some status \<Rightarrow> status \<noteq> StatusOK | None \<Rightarrow> False)"
    from distributed assms
    have "tr' = snd (ingestDistributedQuery svc (loc_host loc) query rows failed tr)"
      by (auto simp: ingest_result_def Let_def failed_def split: prod.splits)
    with ingestDistributedQuery_calls [of svc "loc_host loc" query rows failed tr]
    show ?thesis by simp
  next
    case unknown
    with assms have "tr' = tr"
      by (simp add: ingest_result_def)
    then show ?thesis by simp
  qed
qed

lemma ingest_results_calls:
  "ingest_results svc statuses results loc tr = (e, loc', tr') \<Longrightarrow>
     \<exists>calls. tr' = tr @ calls \<and> (\<forall>c \<in> set calls. \<not> persists_agent c)"
proof (induction results arbitrary: loc tr)
  case Nil
  then show ?case by simp
next
  case (Cons qr results)
  obtain query rows where qr: "qr = (query, rows)" by (cases qr)
  obtain e1 loc1 tr1 where s: "ingest_result svc statuses query rows loc tr = (e1, loc1, tr1)"
    by (cases "ingest_result svc statuses query rows loc tr")
  from ingest_result_calls [OF s] obtain calls1
    where c1: "tr1 = tr @ calls1" "\<forall>c \<in> set calls1. \<not> persists_agent c"
    by blast
  show ?case
  proof (cases e1)
    case (Some err)
    with Cons.prems qr s have "tr' = tr1" by simp
    with c1 show ?thesis by blast
  next
    case None
    with Cons.prems qr s have "ingest_results svc statuses results loc1 tr1 = (e, loc', tr')"
      by simp
    from Cons.IH [OF this] obtain calls2
      where c2: "tr' = tr1 @ calls2" "\<forall>c \<in> set calls2. \<not> persists_agent c"
      by blast
    with c1 have "tr' = tr @ (calls1 @ calls2) \<and> (\<forall>c \<in> set (calls1 @ calls2). \<not> persists_agent c)"
      by auto
    then show ?thesis by blast
  qed
qed

lemma ingest_results_append:
  "ingest_results svc statuses (xs @ ys) loc tr =
     (case ingest_results svc statuses xs loc tr of
        (Some err, loc', tr') \<Rightarrow> (Some err, loc', tr')
      | (None, loc', tr') \<Rightarrow> ingest_results svc statuses ys loc' tr')"
proof (induction xs arbitrary: loc tr)
  case Nil
  show ?case by simp
next
  case (Cons qr xs)
  obtain query rows where qr: "qr = (query, rows)" by (cases qr)
  obtain e1 loc1 tr1 where s: "ingest_result svc statuses query rows loc tr = (e1, loc1, tr1)"
    by (cases "ingest_result svc statuses query rows loc tr")
  show ?case
    by (cases e1) (simp_all add: qr s Cons.IH)
qed

lemma ingest_result_unknown:
  assumes "\<not> HasPrefix query hostDetailQueryPrefix" "\<not> HasPrefix query hostLabelQueryPrefix"
    "\<not> HasPrefix query hostDistributedQueryPrefix"
  shows "ingest_result svc statuses query rows loc tr =
           (Some (osqueryError (''unknown query prefix: '' @ query) False), loc, tr)"
  using assms by (simp add: ingest_result_def)

lemma ingest_results_error_kind:
  "fst (ingest_results svc statuses results loc tr) = Some err \<Longrightarrow>
     \<exists>msg. err = osqueryError (''failed to ingest result: '' @ msg) False"
proof (induction results arbitrary: loc tr)
  case Nil
  then show ?case by simp
next
  case (Cons qr results)
  obtain query rows where qr: "qr = (query, rows)" by (cases qr)
  obtain e1 loc1 tr1 where s: "ingest_result svc statuses query rows loc tr = (e1, loc1, tr1)"
    by (cases "ingest_result svc statuses query rows loc tr")
  show ?case
  proof (cases e1)
    case (Some e)
    with Cons.prems qr s show ?thesis by auto
  next
    case None
    with Cons.prems qr s Cons.IH [of loc1 tr1] show ?thesis by simp
  qed
qed

lemma ingest_results_unknown_fails:
  assumes "(query, rows) \<in> set results"
    and "\<not> HasPrefix query hostDetailQueryPrefix" "\<not> HasPrefix query hostLabelQueryPrefix"
    "\<not> HasPrefix query hostDistributedQueryPrefix"
  shows "fst (ingest_results svc statuses results loc tr) \<noteq> None"
proof -
  from assms(1) obtain pre post where r: "results = pre @ (query, rows) # post"
    by (meson split_list)
  obtain e1 loc1 tr1 where p: "ingest_results svc statuses pre loc tr = (e1, loc1, tr1)"
    by (cases "ingest_results svc statuses pre loc tr")
  show ?thesis
    by (cases e1) (simp_all add: r ingest_results_append p ingest_result_unknown [OF assms(2-4)])
qed


lemma Submit_loop_failed:
  assumes "ingest_results svc statuses results
             \<lparr>loc_host = host, detailUpdated = False, labelResults = Map.empty\<rparr> tr
           = (Some err, loc, tr')"
  shows "SubmitDistributedQueryResults svc (Some host) results statuses tr = (Some err, tr')"
  using assms by (simp add: SubmitDistributedQueryResults_def)

lemma distributed_prefix_not_others:
  assumes "HasPrefix query hostDistributedQueryPrefix"
  shows "\<not> HasPrefix query hostDetailQueryPrefix \<and> \<not> HasPrefix query hostLabelQueryPrefix"
proof -
  from assms have q: "take (length hostDistributedQueryPrefix) query = hostDistributedQueryPrefix"
    by (simp add: HasPrefix_def)
  have d: False if "HasPrefix query hostDetailQueryPrefix"
  proof -
    from that have d: "take (length hostDetailQueryPrefix) query = hostDetailQueryPrefix"
      by (simp add: HasPrefix_def)
    have "take (length hostDetailQueryPrefix) (take (length hostDistributedQueryPrefix) query)
            = take (length hostDetailQueryPrefix) query"
      by (simp add: hostDetailQueryPrefix_def hostDistributedQueryPrefix_def)
    with d q have "take (length hostDetailQueryPrefix) hostDistributedQueryPrefix
                     = hostDetailQueryPrefix"
      by simp
    then show False
      by (simp add: hostDetailQueryPrefix_def hostDistributedQueryPrefix_def)
  qed
  have l: False if "HasPrefix query hostLabelQueryPrefix"
  proof -
    from that have l: "take (length hostLabelQueryPrefix) query = hostLabelQueryPrefix"
      by (simp add: HasPrefix_def)
    have "take (length hostLabelQueryPrefix) (take (length hostDistributedQueryPrefix) query)
            = take (length hostLabelQueryPrefix) query"
      by (simp add: hostLabelQueryPrefix_def hostDistributedQueryPrefix_def)
    with l q have "take (length hostLabelQueryPrefix) hostDistributedQueryPrefix
                     = hostLabelQueryPrefix"
      by simp
    then show False
      by (simp add: hostLabelQueryPrefix_def hostDistributedQueryPrefix_def)
  qed
  from d l show ?thesis by blast
qed

lemma ingestDistributedQuery_done:
  assumes "fst (ingestDistributedQuery svc host name rows failed tr) = None"
  shows "\<exists>n. Atoi (emptyToZero (TrimPrefix name hostDistributedQueryPrefix)) = (n, None)
           \<and> CallWriteResult (envelope host n rows failed)
               \<in> set (snd (ingestDistributedQuery svc host name rows failed tr))
           \<and> CallNewDistributedQueryExecution (audit_record host n failed)
               \<in> set (snd (ingestDistributedQuery svc host name rows failed tr))"
proof -
  obtain n pe where p: "Atoi (emptyToZero (TrimPrefix name hostDistributedQueryPrefix)) = (n, pe)"
    by (cases "Atoi (emptyToZero (TrimPrefix name hostDistributedQueryPrefix))")
  show ?thesis
  proof (cases pe)
    case (Some err)
    with p assms show ?thesis
      by (simp add: ingestDistributedQuery_def)
  next
    case None
    with p have q: "Atoi (emptyToZero (TrimPrefix name hostDistributedQueryPrefix)) = (n, None)"
      by simp
    from assms show ?thesis
      by (auto simp: ingestDistributedQuery_unfold [OF q] q
          split: option.splits sum.splits if_splits)
  qed
qed

lemma ingest_result_distributed:
  assumes "ingest_result svc statuses query rows loc tr = (None, loc', tr')"
    and "HasPrefix query hostDistributedQueryPrefix"
  shows "\<exists>n. CallWriteResult
                (envelope (loc_host loc) n rows
                   (case statuses query of Some status \<Rightarrow> status \<noteq> StatusOK | None \<Rightarrow> False))
               \<in> set tr'
           \<and> CallNewDistributedQueryExecution
                (audit_record (loc_host loc) n
                   (case statuses query of Some status \<Rightarrow> status \<noteq> StatusOK | None \<Rightarrow> False))
               \<in> set tr'"
proof -
  define failed where
    "failed = (case statuses query of Some status \<Rightarrow> status \<noteq> StatusOK | None \<Rightarrow> False)"
  from assms distributed_prefix_not_others [OF assms(2)]
  have "ingestDistributedQuery svc (loc_host loc) query rows failed tr = (None, tr')"
    by (auto simp: ingest_result_def Let_def failed_def split: prod.splits)
  with ingestDistributedQuery_done [of svc "loc_host loc" query rows failed tr]
  show ?thesis
    by (auto simp: failed_def)
qed

text \<open>
  Claim C4, as amended. If a name of the batch has none of the three prefixes, the
  submission fails with an \<open>osqueryError\<close> "failed to ingest result", and none of the
  calls it makes saves the agent or records label memberships. The error is the one for
  the unknown prefix whenever the results visited before that name were ingested without
  error; a result visited earlier that fails is reported instead. Results visited before
  the unknown name are ingested all the same: when they are ingested without error, the
  calls of the submission are exactly the calls made for them, and for every distributed
  query ingested before the submission fails the result has been published and its
  execution recorded.
\<close>

theorem unknown_prefix_rejects:
  assumes "(query, rows) \<in> set results"
    and "\<not> HasPrefix query hostDetailQueryPrefix"
    and "\<not> HasPrefix query hostLabelQueryPrefix"
    and "\<not> HasPrefix query hostDistributedQueryPrefix"
  shows "(\<exists>msg calls.
           SubmitDistributedQueryResults svc (Some host) results statuses tr
             = (Some (osqueryError (''failed to ingest result: '' @ msg) False), tr @ calls)
         \<and> (\<forall>c \<in> set calls. \<not> persists_agent c)
         \<and> (\<forall>pre post.
               results = pre @ (query, rows) # post
               \<and> fst (ingest_results svc statuses pre
                       \<lparr>loc_host = host, detailUpdated = False, labelResults = Map.empty\<rparr> tr) = None
               \<longrightarrow> msg = ''unknown query prefix: '' @ query))
       \<and> (\<forall>pre post loc1 tr1.
             results = pre @ (query, rows) # post
             \<and> ingest_results svc statuses pre
                 \<lparr>loc_host = host, detailUpdated = False, labelResults = Map.empty\<rparr> tr
               = (None, loc1, tr1)
             \<longrightarrow> SubmitDistributedQueryResults svc (Some host) results statuses tr
                   = (Some (osqueryError
                        (''failed to ingest result: unknown query prefix: '' @ query) False), tr1))
       \<and> (\<forall>pre q r post loc1 tr1.
             results = pre @ (q, r) # post
             \<and> ingest_results svc statuses pre
                 \<lparr>loc_host = host, detailUpdated = False, labelResults = Map.empty\<rparr> tr
               = (None, loc1, tr1)
             \<and> HasPrefix q hostDistributedQueryPrefix
             \<and> fst (ingest_result svc statuses q r loc1 tr1) = None
             \<longrightarrow> (\<exists>n. CallWriteResult
                        (envelope (loc_host loc1) n r
                           (case statuses q of Some status \<Rightarrow> status \<noteq> StatusOK | None \<Rightarrow> False))
                       \<in> set (snd (SubmitDistributedQueryResults svc (Some host) results
                                      statuses tr))
                     \<and> CallNewDistributedQueryExecution
                        (audit_record (loc_host loc1) n
                           (case statuses q of Some status \<Rightarrow> status \<noteq> StatusOK | None \<Rightarrow> False))
                       \<in> set (snd (SubmitDistributedQueryResults svc (Some host) results
                                      statuses tr))))"
proof -
  let ?loc = "\<lparr>loc_host = host, detailUpdated = False, labelResults = Map.empty\<rparr>"
  obtain e loc' tr' where l: "ingest_results svc statuses results ?loc tr = (e, loc', tr')"
    by (cases "ingest_results svc statuses results ?loc tr")
  from ingest_results_unknown_fails [OF assms, of svc statuses ?loc tr] l
  obtain err where e: "e = Some err"
    by auto
  from ingest_results_error_kind [of svc statuses results ?loc tr err] l e
  obtain msg where msg: "err = osqueryError (''failed to ingest result: '' @ msg) False"
    by auto
  from ingest_results_calls [OF l] obtain calls
    where calls: "tr' = tr @ calls" "\<forall>c \<in> set calls. \<not> persists_agent c"
    by blast
  have sub: "SubmitDistributedQueryResults svc (Some host) results statuses tr = (Some err, tr')"
    using Submit_loop_failed [OF l [unfolded e]] .
  have stop: "ingest_results svc statuses results ?loc tr
        = (Some (osqueryError (''failed to ingest result: unknown query prefix: '' @ query) False),
           loc1, tr1)"
    if r: "results = pre @ (query, rows) # post"
      and p: "ingest_results svc statuses pre ?loc tr = (None, loc1, tr1)" for pre post loc1 tr1
    by (simp add: r ingest_results_append p ingest_result_unknown [OF assms(2-4)])
  have first: "msg = ''unknown query prefix: '' @ query"
    if r: "results = pre @ (query, rows) # post"
      and p: "fst (ingest_results svc statuses pre ?loc tr) = None" for pre post
  proof -
    obtain loc1 tr1 where "ingest_results svc statuses pre ?loc tr = (None, loc1, tr1)"
      using p by (cases "ingest_results svc statuses pre ?loc tr") auto
    from stop [OF r this] l e msg show ?thesis
      by simp
  qed
  have exact: "SubmitDistributedQueryResults svc (Some host) results statuses tr
                   = (Some (osqueryError
                        (''failed to ingest result: unknown query prefix: '' @ query) False), tr1)"
    if r: "results = pre @ (query, rows) # post"
      and p: "ingest_results svc statuses pre ?loc tr = (None, loc1, tr1)" for pre post loc1 tr1
    using stop [OF r p] l e sub by simp
  have earlier: "\<exists>n. CallWriteResult
                        (envelope (loc_host loc1) n r
                           (case statuses q of Some status \<Rightarrow> status \<noteq> StatusOK | None \<Rightarrow> False))
                       \<in> set (snd (SubmitDistributedQueryResults svc (Some host) results
                                      statuses tr))
                     \<and> CallNewDistributedQueryExecution
                        (audit_record (loc_host loc1) n
                           (case statuses q of Some status \<Rightarrow> status \<noteq> StatusOK | None \<Rightarrow> False))
                       \<in> set (snd (SubmitDistributedQueryResults svc (Some host) results
                                      statuses tr))"
    if r: "results = pre @ (q, r) # post"
      and p: "ingest_results svc statuses pre ?loc tr = (None, loc1, tr1)"
      and d: "HasPrefix q hostDistributedQueryPrefix"
      and ok: "fst (ingest_result svc statuses q r loc1 tr1) = None"
    for pre q r post loc1 tr1
  proof -
    obtain loc2 tr2 where s: "ingest_result svc statuses q r loc1 tr1 = (None, loc2, tr2)"
      using ok by (cases "ingest_result svc statuses q r loc1 tr1") auto
    from l r p s have "ingest_results svc statuses post loc2 tr2 = (e, loc', tr')"
      by (simp add: ingest_results_append)
    from ingest_results_calls [OF this] obtain more where "tr' = tr2 @ more"
      by blast
    with ingest_result_distributed [OF s d] sub show ?thesis
      by auto
  qed
  from sub msg calls first exact earlier show ?thesis
    by blast
qed

text \<open>
  A label result followed by a name without prefix: the submission is rejected for the
  unknown prefix and makes no call at all.
\<close>

theorem unknown_prefix_rejects_witness:
  "(''pack_usb_devices'', []) \<in> set [(''kolide_label_query_7'', [Map.empty]), (''pack_usb_devices'', [])]
   \<and> \<not> HasPrefix ''pack_usb_devices'' hostDetailQueryPrefix
   \<and> \<not> HasPrefix ''pack_usb_devices'' hostLabelQueryPrefix
   \<and> \<not> HasPrefix ''pack_usb_devices'' hostDistributedQueryPrefix
   \<and> SubmitDistributedQueryResults reliable (Some enrolled_host)
        [(''kolide_label_query_7'', [Map.empty]), (''pack_usb_devices'', [])] Map.empty []
      = (Some (osqueryError ''failed to ingest result: unknown query prefix: pack_usb_devices'' False),
         [])"
proof -
  have m: "(''pack_usb_devices'', [])
             \<in> set [(''kolide_label_query_7'', [Map.empty :: row]), (''pack_usb_devices'', [])]"
    by simp
  have d: "\<not> HasPrefix ''pack_usb_devices'' hostDetailQueryPrefix"
    by (simp add: HasPrefix_def hostDetailQueryPrefix_def)
  have l: "\<not> HasPrefix ''pack_usb_devices'' hostLabelQueryPrefix"
    by (simp add: HasPrefix_def hostLabelQueryPrefix_def)
  have q: "\<not> HasPrefix ''pack_usb_devices'' hostDistributedQueryPrefix"
    by (simp add: HasPrefix_def hostDistributedQueryPrefix_def)
  have pre: "fst (ingest_results reliable Map.empty [(''kolide_label_query_7'', [Map.empty])]
               \<lparr>loc_host = enrolled_host, detailUpdated = False, labelResults = Map.empty\<rparr> []) = None"
    by (simp add: ingest_result_def ingestLabelQuery_def HasPrefix_def TrimPrefix_def
        hostDetailQueryPrefix_def hostLabelQueryPrefix_def emptyToZero_def Atoi_def
        parse_int64_def is_digit_def)
  from unknown_prefix_rejects [OF m d l q, of reliable enrolled_host Map.empty "[]"]
  obtain msg calls where
    s: "SubmitDistributedQueryResults reliable (Some enrolled_host)
          [(''kolide_label_query_7'', [Map.empty]), (''pack_usb_devices'', [])] Map.empty []
        = (Some (osqueryError (''failed to ingest result: '' @ msg) False), [] @ calls)"
    and f: "\<forall>pre post.
               [(''kolide_label_query_7'', [Map.empty :: row]), (''pack_usb_devices'', [])]
                 = pre @ (''pack_usb_devices'', []) # post
               \<and> fst (ingest_results reliable Map.empty pre
                       \<lparr>loc_host = enrolled_host, detailUpdated = False, labelResults = Map.empty\<rparr> []) = None
               \<longrightarrow> msg = ''unknown query prefix: '' @ ''pack_usb_devices''"
    by blast
  from f [rule_format, of "[(''kolide_label_query_7'', [Map.empty])]" "[]"] pre
  have msg: "msg = ''unknown query prefix: pack_usb_devices''"
    by simp
  have "SubmitDistributedQueryResults reliable (Some enrolled_host)
          [(''kolide_label_query_7'', [Map.empty]), (''pack_usb_devices'', [])] Map.empty []
        = (Some (osqueryError ''failed to ingest result: unknown query prefix: pack_usb_devices'' False), [])"
    by (simp add: SubmitDistributedQueryResults_def ingest_result_def ingestLabelQuery_def
        HasPrefix_def TrimPrefix_def hostDetailQueryPrefix_def hostLabelQueryPrefix_def
        hostDistributedQueryPrefix_def emptyToZero_def Atoi_def parse_int64_def is_digit_def)
  with m d l q s msg show ?thesis
    by simp
qed

text \<open>
  Claim C4 as stated fails. The batch holds the result of campaign 7 and a name without
  prefix, visited in this order: the submission is rejected for the unknown prefix, but
  the result of campaign 7 has been published and its execution recorded by then. With
  a label name that is no number visited first, the error is not the one of the
  unknown prefix.
\<close>

theorem unknown_prefix_counterexample:
  "SubmitDistributedQueryResults reliable (Some enrolled_host)
     [(''kolide_distributed_query_7'', []), (''pack_usb_devices'', [])] Map.empty []
   = (Some (osqueryError ''failed to ingest result: unknown query prefix: pack_usb_devices'' False),
      [CallWriteResult (envelope enrolled_host 7 [] False),
       CallNewDistributedQueryExecution (audit_record enrolled_host 7 False)])
   \<and> fst (SubmitDistributedQueryResults reliable (Some enrolled_host)
       [(''kolide_label_query_x'', []), (''pack_usb_devices'', [])] Map.empty [])
     \<noteq> Some (osqueryError ''failed to ingest result: unknown query prefix: pack_usb_devices'' False)"
proof -
  have p: "Atoi (emptyToZero (TrimPrefix ''kolide_distributed_query_7'' hostDistributedQueryPrefix))
     = (7, None)"
    by (simp add: TrimPrefix_def HasPrefix_def hostDistributedQueryPrefix_def emptyToZero_def
        Atoi_def parse_int64_def is_digit_def)
  have i: "ingestDistributedQuery reliable enrolled_host ''kolide_distributed_query_7'' [] False []
      = (None, [CallWriteResult (envelope enrolled_host 7 [] False),
                CallNewDistributedQueryExecution (audit_record enrolled_host 7 False)])"
    by (simp add: ingestDistributedQuery_unfold [OF p] reliable_def)
  have 1: "SubmitDistributedQueryResults reliable (Some enrolled_host)
     [(''kolide_distributed_query_7'', []), (''pack_usb_devices'', [])] Map.empty []
   = (Some (osqueryError ''failed to ingest result: unknown query prefix: pack_usb_devices'' False),
      [CallWriteResult (envelope enrolled_host 7 [] False),
       CallNewDistributedQueryExecution (audit_record enrolled_host 7 False)])"
    by (simp add: SubmitDistributedQueryResults_def ingest_result_def i HasPrefix_def
        hostDetailQueryPrefix_def hostLabelQueryPrefix_def hostDistributedQueryPrefix_def)
  have 2: "fst (SubmitDistributedQueryResults reliable (Some enrolled_host)
       [(''kolide_label_query_x'', []), (''pack_usb_devices'', [])] Map.empty [])
     \<noteq> Some (osqueryError ''failed to ingest result: unknown query prefix: pack_usb_devices'' False)"
    by (simp add: SubmitDistributedQueryResults_def ingest_result_def ingestLabelQuery_def
        HasPrefix_def TrimPrefix_def hostDetailQueryPrefix_def hostLabelQueryPrefix_def
        emptyToZero_def Atoi_def parse_int64_def is_digit_def NumError_def Wrap_def)
  from 1 2 show ?thesis
    by simp
qed

lemma ingest_result_other_label:
  assumes "ingest_result svc statuses query rows loc tr = (e, loc', tr')"
    and "HasPrefix query hostLabelQueryPrefix \<longrightarrow> label_of query \<noteq> k"
  shows "labelResults loc' k = labelResults loc k"
proof (cases "HasPrefix query hostLabelQueryPrefix")
  case True
  with assms(2) have k: "label_of query \<noteq> k" by simp
  obtain n pe where p: "Atoi (emptyToZero (TrimPrefix query hostLabelQueryPrefix)) = (n, pe)"
    by (cases "Atoi (emptyToZero (TrimPrefix query hostLabelQueryPrefix))")
  with k have "to_uint n \<noteq> k"
    by (simp add: label_of_def)
  with assms(1) True label_prefix_not_detail [OF True] p show ?thesis
    by (cases pe) (auto simp: ingest_result_def ingestLabelQuery_def)
next
  case False
  with assms(1) show ?thesis
    by (auto simp: ingest_result_def Let_def split: if_splits prod.splits)
qed

lemma ingest_result_label:
  assumes "ingest_result svc statuses query rows loc tr = (None, loc', tr')"
    and "HasPrefix query hostLabelQueryPrefix"
  shows "labelResults loc' (label_of query) = Some (rows \<noteq> [])"
proof -
  obtain n pe where p: "Atoi (emptyToZero (TrimPrefix query hostLabelQueryPrefix)) = (n, pe)"
    by (cases "Atoi (emptyToZero (TrimPrefix query hostLabelQueryPrefix))")
  with assms label_prefix_not_detail [OF assms(2)] show ?thesis
    by (cases pe) (auto simp: ingest_result_def ingestLabelQuery_def label_of_def)
qed

lemma ingest_results_other_label:
  "ingest_results svc statuses results loc tr = (e, loc', tr') \<Longrightarrow>
   \<forall>(q, r) \<in> set results. HasPrefix q hostLabelQueryPrefix \<longrightarrow> label_of q \<noteq> k \<Longrightarrow>
   labelResults loc' k = labelResults loc k"
proof (induction results arbitrary: loc tr)
  case Nil
  then show ?case by simp
next
  case (Cons qr results)
  obtain query rows where qr: "qr = (query, rows)" by (cases qr)
  obtain e1 loc1 tr1 where s: "ingest_result svc statuses query rows loc tr = (e1, loc1, tr1)"
    by (cases "ingest_result svc statuses query rows loc tr")
  from Cons.prems(2) qr have "HasPrefix query hostLabelQueryPrefix \<longrightarrow> label_of query \<noteq> k"
    by simp
  from ingest_result_other_label [OF s this]
  have 1: "labelResults loc1 k = labelResults loc k" .
  show ?case
  proof (cases e1)
    case (Some err)
    with Cons.prems(1) qr s have "loc' = loc1" by simp
    with 1 show ?thesis by simp
  next
    case None
    with Cons.prems(1) qr s have "ingest_results svc statuses results loc1 tr1 = (e, loc', tr')"
      by simp
    from Cons.IH [OF this] Cons.prems(2) 1 show ?thesis
      by simp
  qed
qed

lemma Submit_loop_done:
  assumes "ingest_results svc statuses results
             \<lparr>loc_host = host, detailUpdated = False, labelResults = Map.empty\<rparr> tr
           = (None, loc, tr')"
  shows "SubmitDistributedQueryResults svc (Some host) results statuses tr =
     (let save = (\<lambda>tr1.
            if detailUpdated loc then
              (case ds_SaveHost svc (tr1 @ [CallNow])
                      ((loc_host loc)\<lparr>DetailUpdateTime := clock_Now svc tr1\<rparr>) of
                 Some err \<Rightarrow>
                   Some (osqueryError (''failed to update host details: '' @ Error err) False)
               | None \<Rightarrow> None,
               tr1 @ [CallNow, CallSaveHost ((loc_host loc)\<lparr>DetailUpdateTime := clock_Now svc tr1\<rparr>)])
            else if labelResults loc \<noteq> Map.empty then
              (case ds_SaveHost svc tr1 (loc_host loc) of
                 Some err \<Rightarrow>
                   Some (osqueryError (''failed to update host details: '' @ Error err) False)
               | None \<Rightarrow> None,
               tr1 @ [CallSaveHost (loc_host loc)])
            else (None, tr1))
      in if labelResults loc \<noteq> Map.empty then
           (case ds_RecordLabelQueryExecutions svc (tr' @ [CallNow]) (loc_host loc)
                   (labelResults loc) (clock_Now svc tr') of
              Some err \<Rightarrow>
                (Some (osqueryError (''failed to save labels: '' @ Error err) False),
                 tr' @ [CallNow, CallRecordLabelQueryExecutions (loc_host loc) (labelResults loc)
                                   (clock_Now svc tr')])
            | None \<Rightarrow>
                save (tr' @ [CallNow, CallRecordLabelQueryExecutions (loc_host loc)
                                        (labelResults loc) (clock_Now svc tr')]))
         else save tr')"
  using assms
  by (simp add: SubmitDistributedQueryResults_def Let_def split: option.split)

text \<open>
  Claim C5, as amended. Let the loop over the batch end without error. Then for every
  label result of the batch, the membership recorded for its label is true exactly when
  its row list is not empty, also for an empty row list, unless a result visited later
  stands for the same label (names of one batch that are written differently yet parse
  to the same number overwrite each other). If any label result was recorded, the
  submission makes exactly one call to \<open>RecordLabelQueryExecutions\<close>, with the agent,
  all recorded memberships and the time the clock gave just before. When the loop ends
  with an error, the submission returns that error and records no label membership.
\<close>

theorem label_membership_recorded:
  assumes "ingest_results svc statuses results
             \<lparr>loc_host = host, detailUpdated = False, labelResults = Map.empty\<rparr> tr
           = (e, loc, tr')"
  shows "(e = None \<longrightarrow>
           (\<forall>pre query rows post.
              results = pre @ (query, rows) # post
              \<and> HasPrefix query hostLabelQueryPrefix
              \<and> (\<forall>(q, r) \<in> set post. HasPrefix q hostLabelQueryPrefix \<longrightarrow> label_of q \<noteq> label_of query)
              \<longrightarrow> labelResults loc (label_of query) = Some (rows \<noteq> []))
         \<and> (labelResults loc \<noteq> Map.empty \<longrightarrow>
              (\<exists>before rest.
                 snd (SubmitDistributedQueryResults svc (Some host) results statuses tr)
                   = tr @ before
                     @ [CallNow,
                        CallRecordLabelQueryExecutions (loc_host loc) (labelResults loc)
                          (clock_Now svc (tr @ before))]
                     @ rest
                 \<and> (\<forall>c \<in> set before. \<not> persists_agent c)
                 \<and> (\<forall>h r t. CallRecordLabelQueryExecutions h r t \<notin> set rest))))
       \<and> (e \<noteq> None \<longrightarrow>
            fst (SubmitDistributedQueryResults svc (Some host) results statuses tr) = e
          \<and> (\<exists>calls. snd (SubmitDistributedQueryResults svc (Some host) results statuses tr)
                        = tr @ calls
                \<and> (\<forall>h r t. CallRecordLabelQueryExecutions h r t \<notin> set calls)))"
proof -
  let ?loc = "\<lparr>loc_host = host, detailUpdated = False, labelResults = Map.empty\<rparr>"
  from ingest_results_calls [OF assms] obtain before
    where b: "tr' = tr @ before" "\<forall>c \<in> set before. \<not> persists_agent c"
    by blast
  have failing: "fst (SubmitDistributedQueryResults svc (Some host) results statuses tr) = e
          \<and> (\<exists>calls. snd (SubmitDistributedQueryResults svc (Some host) results statuses tr)
                        = tr @ calls
                \<and> (\<forall>h r t. CallRecordLabelQueryExecutions h r t \<notin> set calls))"
    if "e \<noteq> None"
  proof -
    from that obtain err where e: "e = Some err" by auto
    from Submit_loop_failed [OF assms [unfolded e]] e b show ?thesis
      by force
  qed
  have one: "labelResults loc (label_of query) = Some (rows \<noteq> [])"
    if none: "e = None"
      and r: "results = pre @ (query, rows) # post"
      and l: "HasPrefix query hostLabelQueryPrefix"
      and later: "\<forall>(q, r) \<in> set post. HasPrefix q hostLabelQueryPrefix \<longrightarrow> label_of q \<noteq> label_of query"
    for pre query rows post
  proof -
    obtain e1 loc1 tr1 where p: "ingest_results svc statuses pre ?loc tr = (e1, loc1, tr1)"
      by (cases "ingest_results svc statuses pre ?loc tr")
    with assms none r have e1: "e1 = None"
      by (cases e1) (simp_all add: ingest_results_append)
    obtain e2 loc2 tr2 where s: "ingest_result svc statuses query rows loc1 tr1 = (e2, loc2, tr2)"
      by (cases "ingest_result svc statuses query rows loc1 tr1")
    with assms none r p e1 have e2: "e2 = None"
      by (cases e2) (simp_all add: ingest_results_append)
    from assms none r p e1 s e2
    have rest: "ingest_results svc statuses post loc2 tr2 = (None, loc, tr')"
      by (simp add: ingest_results_append)
    from ingest_results_other_label [OF rest later]
      ingest_result_label [OF s [unfolded e2] l]
    show ?thesis by simp
  qed
  have batch: "\<exists>before rest.
               snd (SubmitDistributedQueryResults svc (Some host) results statuses tr)
                 = tr @ before
                   @ [CallNow,
                      CallRecordLabelQueryExecutions (loc_host loc) (labelResults loc)
                        (clock_Now svc (tr @ before))]
                   @ rest
               \<and> (\<forall>c \<in> set before. \<not> persists_agent c)
               \<and> (\<forall>h r t. CallRecordLabelQueryExecutions h r t \<notin> set rest)"
    if none: "e = None" and ne: "labelResults loc \<noteq> Map.empty"
  proof -
    have "\<exists>rest. snd (SubmitDistributedQueryResults svc (Some host) results statuses tr)
                 = tr' @ [CallNow,
                      CallRecordLabelQueryExecutions (loc_host loc) (labelResults loc)
                        (clock_Now svc tr')] @ rest
               \<and> (\<forall>h r t. CallRecordLabelQueryExecutions h r t \<notin> set rest)"
      using ne by (simp add: Submit_loop_done [OF assms [unfolded none]] Let_def split: option.split)
    with b show ?thesis
      by auto
  qed
  from one batch failing show ?thesis
    by blast
qed

text \<open>
  Label 7 with no row and label 8 with one row: both are recorded, in one call, at the
  time 5000 of the clock.
\<close>

theorem label_membership_recorded_witness:
  "ingest_results reliable Map.empty
     [(''kolide_label_query_7'', []), (''kolide_label_query_8'', [Map.empty])]
     \<lparr>loc_host = enrolled_host, detailUpdated = False, labelResults = Map.empty\<rparr> []
   = (None,
      \<lparr>loc_host = enrolled_host, detailUpdated = False, labelResults = [7 \<mapsto> False, 8 \<mapsto> True]\<rparr>,
      [])
   \<and> label_of ''kolide_label_query_7'' = 7
   \<and> labelResults
        \<lparr>loc_host = enrolled_host, detailUpdated = False, labelResults = [7 \<mapsto> False, 8 \<mapsto> True]\<rparr> 7
      = Some False
   \<and> SubmitDistributedQueryResults reliable (Some enrolled_host)
        [(''kolide_label_query_7'', []), (''kolide_label_query_8'', [Map.empty])] Map.empty []
      = (None,
         [CallNow, CallRecordLabelQueryExecutions enrolled_host [7 \<mapsto> False, 8 \<mapsto> True] 5000,
          CallSaveHost enrolled_host])"
proof -
  have loop: "ingest_results reliable Map.empty
     [(''kolide_label_query_7'', []), (''kolide_label_query_8'', [Map.empty])]
     \<lparr>loc_host = enrolled_host, detailUpdated = False, labelResults = Map.empty\<rparr> []
   = (None,
      \<lparr>loc_host = enrolled_host, detailUpdated = False, labelResults = [7 \<mapsto> False, 8 \<mapsto> True]\<rparr>,
      [])"
    by (simp add: ingest_result_def ingestLabelQuery_def HasPrefix_def TrimPrefix_def
        hostDetailQueryPrefix_def hostLabelQueryPrefix_def emptyToZero_def Atoi_def
        parse_int64_def is_digit_def to_uint_def)
  have l7: "label_of ''kolide_label_query_7'' = 7"
    and l8: "label_of ''kolide_label_query_8'' = 8"
    by (simp_all add: label_of_def HasPrefix_def TrimPrefix_def hostLabelQueryPrefix_def
        emptyToZero_def Atoi_def parse_int64_def is_digit_def to_uint_def)
  have p7: "HasPrefix ''kolide_label_query_7'' hostLabelQueryPrefix"
    by (simp add: HasPrefix_def hostLabelQueryPrefix_def)
  have sub: "SubmitDistributedQueryResults reliable (Some enrolled_host)
        [(''kolide_label_query_7'', []), (''kolide_label_query_8'', [Map.empty])] Map.empty []
      = (None,
         [CallNow, CallRecordLabelQueryExecutions enrolled_host [7 \<mapsto> False, 8 \<mapsto> True] 5000,
          CallSaveHost enrolled_host])"
    by (subst Submit_loop_done [OF loop]) (simp add: Let_def reliable_def)
  from label_membership_recorded [OF loop]
  have "\<forall>pre query rows post.
          [(''kolide_label_query_7'', []), (''kolide_label_query_8'', [Map.empty :: row])]
            = pre @ (query, rows) # post
          \<and> HasPrefix query hostLabelQueryPrefix
          \<and> (\<forall>(q, r) \<in> set post. HasPrefix q hostLabelQueryPrefix \<longrightarrow> label_of q \<noteq> label_of query)
          \<longrightarrow> labelResults
                \<lparr>loc_host = enrolled_host, detailUpdated = False,
                 labelResults = [7 \<mapsto> False, 8 \<mapsto> True]\<rparr> (label_of query) = Some (rows \<noteq> [])"
    by blast
  from this [rule_format, of "[]" "''kolide_label_query_7''" "[]" "[(''kolide_label_query_8'', [Map.empty])]"]
    p7 l7 l8
  have "labelResults
          \<lparr>loc_host = enrolled_host, detailUpdated = False, labelResults = [7 \<mapsto> False, 8 \<mapsto> True]\<rparr> 7
        = Some False"
    by simp
  with loop l7 sub show ?thesis
    by simp
qed

text \<open>
  Claim C5 as stated fails. The names \<open>kolide_label_query_7\<close>, with one row, and
  \<open>kolide_label_query_07\<close>, with no row, are two names of one batch for label 7:
  visited in this order, the membership recorded for the result with one row is false.
  And when a later name of the batch is no number, the label result with one row is not
  persisted at all.
\<close>

theorem label_membership_counterexample:
  "SubmitDistributedQueryResults reliable (Some enrolled_host)
     [(''kolide_label_query_7'', [Map.empty]), (''kolide_label_query_07'', [])] Map.empty []
   = (None,
      [CallNow, CallRecordLabelQueryExecutions enrolled_host [7 \<mapsto> False] 5000,
       CallSaveHost enrolled_host])
   \<and> snd (SubmitDistributedQueryResults reliable (Some enrolled_host)
       [(''kolide_label_query_7'', [Map.empty]), (''kolide_label_query_x'', [])] Map.empty []) = []"
proof -
  have loop: "ingest_results reliable Map.empty
     [(''kolide_label_query_7'', [Map.empty]), (''kolide_label_query_07'', [])]
     \<lparr>loc_host = enrolled_host, detailUpdated = False, labelResults = Map.empty\<rparr> []
   = (None,
      \<lparr>loc_host = enrolled_host, detailUpdated = False, labelResults = [7 \<mapsto> False]\<rparr>, [])"
    by (simp add: ingest_result_def ingestLabelQuery_def HasPrefix_def TrimPrefix_def
        hostDetailQueryPrefix_def hostLabelQueryPrefix_def emptyToZero_def Atoi_def
        parse_int64_def is_digit_def to_uint_def)
  have 1: "SubmitDistributedQueryResults reliable (Some enrolled_host)
     [(''kolide_label_query_7'', [Map.empty]), (''kolide_label_query_07'', [])] Map.empty []
   = (None,
      [CallNow, CallRecordLabelQueryExecutions enrolled_host [7 \<mapsto> False] 5000,
       CallSaveHost enrolled_host])"
    by (subst Submit_loop_done [OF loop]) (simp add: Let_def reliable_def)
  have 2: "snd (SubmitDistributedQueryResults reliable (Some enrolled_host)
       [(''kolide_label_query_7'', [Map.empty]), (''kolide_label_query_x'', [])] Map.empty []) = []"
    by (simp add: SubmitDistributedQueryResults_def ingest_result_def ingestLabelQuery_def
        HasPrefix_def TrimPrefix_def hostDetailQueryPrefix_def hostLabelQueryPrefix_def
        emptyToZero_def Atoi_def parse_int64_def is_digit_def)
  from 1 2 show ?thesis
    by simp
qed

lemma ingest_result_detailUpdated:
  assumes "ingest_result svc statuses query rows loc tr = (e, loc', tr')"
  shows "detailUpdated loc' = (detailUpdated loc \<or> HasPrefix query hostDetailQueryPrefix)"
  using assms
  by (auto simp: ingest_result_def Let_def split: if_splits prod.splits)

lemma ingest_results_detailUpdated:
  "ingest_results svc statuses results loc tr = (None, loc', tr') \<Longrightarrow>
     detailUpdated loc' =
       (detailUpdated loc \<or> (\<exists>(q, r) \<in> set results. HasPrefix q hostDetailQueryPrefix))"
proof (induction results arbitrary: loc tr)
  case Nil
  then show ?case by simp
next
  case (Cons qr results)
  obtain query rows where qr: "qr = (query, rows)" by (cases qr)
  obtain e1 loc1 tr1 where s: "ingest_result svc statuses query rows loc tr = (e1, loc1, tr1)"
    by (cases "ingest_result svc statuses query rows loc tr")
  with Cons.prems qr have e1: "e1 = None"
    by (cases e1) simp_all
  with Cons.prems qr s have "ingest_results svc statuses results loc1 tr1 = (None, loc', tr')"
    by simp
  from Cons.IH [OF this] ingest_result_detailUpdated [OF s] qr show ?case
    by auto
qed

lemma hostDetailQueries_due:
  "(fst (hostDetailQueries svc host tr) = Map.empty)
     = (clock_Now svc tr < DetailUpdateTime host + detailUpdateInterval)"
proof -
  have "foldl (\<lambda>queries (name, query, ingestFunc). queries(hostDetailQueryPrefix @ name \<mapsto> query))
          Map.empty detailQueries (hostDetailQueryPrefix @ ''uptime'')
        = Some ''select * from uptime limit 1''"
    by (simp add: detailQueries_def)
  then have "foldl (\<lambda>queries (name, query, ingestFunc). queries(hostDetailQueryPrefix @ name \<mapsto> query))
          Map.empty detailQueries \<noteq> Map.empty"
    by (metis option.distinct(1))
  then show ?thesis
    by (auto simp: hostDetailQueries_def Let_def After_def Add_def)
qed

text \<open>
  Claim C10, as amended. Let the batch hold a name with the detail prefix, whatever the
  ingestion of its rows did to the agent. If the loop over the batch ends without error
  and the recording of the label results, if there are any, succeeds, then the last two
  calls of the submission are a reading of the clock and a \<open>SaveHost\<close> of the agent
  with \<open>DetailUpdateTime\<close> set to that reading; and for an agent saved so,
  \<open>hostDetailQueries\<close> returns no query exactly as long as the clock is before that
  time plus one hour. If the loop ends with an error, or the recording of the label
  results fails, the submission returns an error and makes no call to \<open>SaveHost\<close>.
\<close>

theorem detail_result_refreshes_update_time:
  assumes "ingest_results svc statuses results
             \<lparr>loc_host = host, detailUpdated = False, labelResults = Map.empty\<rparr> tr
           = (e, loc, tr')"
    and "(query, rows) \<in> set results"
    and "HasPrefix query hostDetailQueryPrefix"
  shows "(e = None
          \<and> (labelResults loc \<noteq> Map.empty \<longrightarrow>
               ds_RecordLabelQueryExecutions svc (tr' @ [CallNow]) (loc_host loc) (labelResults loc)
                 (clock_Now svc tr') = None)
          \<longrightarrow>
            (\<exists>tr1. snd (SubmitDistributedQueryResults svc (Some host) results statuses tr)
                     = tr1 @ [CallNow,
                              CallSaveHost ((loc_host loc)\<lparr>DetailUpdateTime := clock_Now svc tr1\<rparr>)]
                  \<and> (\<forall>svc2 tr2.
                        (fst (hostDetailQueries svc2
                                ((loc_host loc)\<lparr>DetailUpdateTime := clock_Now svc tr1\<rparr>) tr2)
                           = Map.empty)
                        = (clock_Now svc2 tr2 < clock_Now svc tr1 + detailUpdateInterval))
                  \<and> detailUpdateInterval = 3600 * 1000000000))
       \<and> (e \<noteq> None
           \<or> labelResults loc \<noteq> Map.empty
             \<and> ds_RecordLabelQueryExecutions svc (tr' @ [CallNow]) (loc_host loc) (labelResults loc)
                 (clock_Now svc tr') \<noteq> None
          \<longrightarrow>
            fst (SubmitDistributedQueryResults svc (Some host) results statuses tr) \<noteq> None
          \<and> (\<exists>calls. snd (SubmitDistributedQueryResults svc (Some host) results statuses tr)
                        = tr @ calls
                \<and> (\<forall>h. CallSaveHost h \<notin> set calls)))"
proof -
  from ingest_results_calls [OF assms(1)] obtain before
    where b: "tr' = tr @ before" "\<forall>c \<in> set before. \<not> persists_agent c"
    by blast
  then have nosave: "CallSaveHost h \<notin> set before" for h
    by force
  have good: "\<exists>tr1. snd (SubmitDistributedQueryResults svc (Some host) results statuses tr)
                     = tr1 @ [CallNow,
                              CallSaveHost ((loc_host loc)\<lparr>DetailUpdateTime := clock_Now svc tr1\<rparr>)]
                  \<and> (\<forall>svc2 tr2.
                        (fst (hostDetailQueries svc2
                                ((loc_host loc)\<lparr>DetailUpdateTime := clock_Now svc tr1\<rparr>) tr2)
                           = Map.empty)
                        = (clock_Now svc2 tr2 < clock_Now svc tr1 + detailUpdateInterval))
                  \<and> detailUpdateInterval = 3600 * 1000000000"
    if none: "e = None"
      and rec: "labelResults loc \<noteq> Map.empty \<longrightarrow>
               ds_RecordLabelQueryExecutions svc (tr' @ [CallNow]) (loc_host loc) (labelResults loc)
                 (clock_Now svc tr') = None"
  proof -
    note loop = assms(1) [unfolded none]
    from ingest_results_detailUpdated [OF loop] assms(2,3) have du: "detailUpdated loc"
      by auto
    have due: "(fst (hostDetailQueries svc2 ((loc_host loc)\<lparr>DetailUpdateTime := t\<rparr>) tr2) = Map.empty)
                    = (clock_Now svc2 tr2 < t + detailUpdateInterval)" for svc2 tr2 t
      by (simp add: hostDetailQueries_due)
    have hour: "detailUpdateInterval = 3600 * 1000000000"
      by (simp add: detailUpdateInterval_def Second_def)
    show ?thesis
    proof (cases "labelResults loc = Map.empty")
      case True
      with du have "snd (SubmitDistributedQueryResults svc (Some host) results statuses tr)
          = tr' @ [CallNow, CallSaveHost ((loc_host loc)\<lparr>DetailUpdateTime := clock_Now svc tr'\<rparr>)]"
        by (simp add: Submit_loop_done [OF loop] Let_def)
      with due hour show ?thesis
        by blast
    next
      case False
      let ?tr1 = "tr' @ [CallNow, CallRecordLabelQueryExecutions (loc_host loc) (labelResults loc)
                                    (clock_Now svc tr')]"
      from False du rec
      have "snd (SubmitDistributedQueryResults svc (Some host) results statuses tr)
          = ?tr1 @ [CallNow, CallSaveHost ((loc_host loc)\<lparr>DetailUpdateTime := clock_Now svc ?tr1\<rparr>)]"
        by (simp add: Submit_loop_done [OF loop] Let_def)
      with due hour show ?thesis
        by blast
    qed
  qed
  have bad: "fst (SubmitDistributedQueryResults svc (Some host) results statuses tr) \<noteq> None
          \<and> (\<exists>calls. snd (SubmitDistributedQueryResults svc (Some host) results statuses tr)
                        = tr @ calls
                \<and> (\<forall>h. CallSaveHost h \<notin> set calls))"
    if "e \<noteq> None
           \<or> labelResults loc \<noteq> Map.empty
             \<and> ds_RecordLabelQueryExecutions svc (tr' @ [CallNow]) (loc_host loc) (labelResults loc)
                 (clock_Now svc tr') \<noteq> None"
  proof (cases e)
    case (Some err)
    from Submit_loop_failed [OF assms(1) [unfolded Some]] b nosave show ?thesis
      by auto
  next
    case None
    with that obtain err where ne: "labelResults loc \<noteq> Map.empty"
      and rec: "ds_RecordLabelQueryExecutions svc (tr' @ [CallNow]) (loc_host loc) (labelResults loc)
                 (clock_Now svc tr') = Some err"
      by auto
    then have "SubmitDistributedQueryResults svc (Some host) results statuses tr
        = (Some (osqueryError (''failed to save labels: '' @ Error err) False),
           tr' @ [CallNow, CallRecordLabelQueryExecutions (loc_host loc) (labelResults loc)
                             (clock_Now svc tr')])"
      by (simp add: Submit_loop_done [OF assms(1) [unfolded None]] Let_def)
    with b nosave show ?thesis
      by auto
  qed
  from good bad show ?thesis
    by blast
qed

text \<open>
  The agent reports no row for \<open>uptime\<close>: the ingestion only logs a warning, and the
  agent is saved unchanged but for the detail-update time 5000 of the clock.
\<close>

theorem detail_result_refreshes_update_time_witness:
  "ingest_results reliable Map.empty [(''kolide_detail_query_uptime'', [])]
     \<lparr>loc_host = enrolled_host, detailUpdated = False, labelResults = Map.empty\<rparr> []
   = (None, \<lparr>loc_host = enrolled_host, detailUpdated = True, labelResults = Map.empty\<rparr>,
      [CallLog (warn ''detail_query_uptime expected single result got 0'')])
   \<and> HasPrefix ''kolide_detail_query_uptime'' hostDetailQueryPrefix
   \<and> snd (SubmitDistributedQueryResults reliable (Some enrolled_host)
        [(''kolide_detail_query_uptime'', [])] Map.empty [])
      = [CallLog (warn ''detail_query_uptime expected single result got 0''), CallNow,
         CallSaveHost (enrolled_host\<lparr>DetailUpdateTime := 5000\<rparr>)]
   \<and> fst (hostDetailQueries reliable (enrolled_host\<lparr>DetailUpdateTime := 5000\<rparr>) []) = Map.empty"
proof -
  have loop: "ingest_results reliable Map.empty [(''kolide_detail_query_uptime'', [])]
     \<lparr>loc_host = enrolled_host, detailUpdated = False, labelResults = Map.empty\<rparr> []
   = (None, \<lparr>loc_host = enrolled_host, detailUpdated = True, labelResults = Map.empty\<rparr>,
      [CallLog (warn ''detail_query_uptime expected single result got 0'')])"
    by (simp add: ingest_result_def ingestDetailQuery_def HasPrefix_def TrimPrefix_def
        hostDetailQueryPrefix_def detailQueries_def uptime_IngestFunc_def Itoa.simps)
  have m: "(''kolide_detail_query_uptime'', []) \<in> set [(''kolide_detail_query_uptime'', [] :: row list)]"
    by simp
  have p: "HasPrefix ''kolide_detail_query_uptime'' hostDetailQueryPrefix"
    by (simp add: HasPrefix_def hostDetailQueryPrefix_def)
  from detail_result_refreshes_update_time [OF loop m p]
  obtain tr1 where
    s: "snd (SubmitDistributedQueryResults reliable (Some enrolled_host)
              [(''kolide_detail_query_uptime'', [])] Map.empty [])
        = tr1 @ [CallNow, CallSaveHost (enrolled_host\<lparr>DetailUpdateTime := clock_Now reliable tr1\<rparr>)]"
    and d: "\<forall>svc2 tr2.
              (fst (hostDetailQueries svc2
                      (enrolled_host\<lparr>DetailUpdateTime := clock_Now reliable tr1\<rparr>) tr2) = Map.empty)
              = (clock_Now svc2 tr2 < clock_Now reliable tr1 + detailUpdateInterval)"
    by auto
  have c: "clock_Now reliable tr = 5000" for tr
    by (simp add: reliable_def)
  have sub: "snd (SubmitDistributedQueryResults reliable (Some enrolled_host)
        [(''kolide_detail_query_uptime'', [])] Map.empty [])
      = [CallLog (warn ''detail_query_uptime expected single result got 0''), CallNow,
         CallSaveHost (enrolled_host\<lparr>DetailUpdateTime := 5000\<rparr>)]"
    by (subst Submit_loop_done [OF loop]) (simp add: Let_def c)
  from d [rule_format, of reliable "[]"]
  have "fst (hostDetailQueries reliable (enrolled_host\<lparr>DetailUpdateTime := 5000\<rparr>) []) = Map.empty"
    by (simp add: c detailUpdateInterval_def Second_def)
  with loop p sub show ?thesis
    by simp
qed

text \<open>
  Claim C10 as stated fails. The batch holds one name with the detail prefix that is in
  no registry entry: the submission returns the error of \<open>ingestDetailQuery\<close> and makes
  no call, so the clock is not read and the agent is not saved. The same happens when
  the only row of \<open>uptime\<close> holds no number.
\<close>

theorem detail_result_counterexample:
  "HasPrefix ''kolide_detail_query_bogus'' hostDetailQueryPrefix
   \<and> SubmitDistributedQueryResults reliable (Some enrolled_host)
       [(''kolide_detail_query_bogus'', [])] Map.empty []
     = (Some (osqueryError ''failed to ingest result: unknown detail query bogus'' False), [])
   \<and> fst (SubmitDistributedQueryResults reliable (Some enrolled_host)
       [(''kolide_detail_query_uptime'', [[''total_seconds'' \<mapsto> ''a day'']])] Map.empty []) \<noteq> None
   \<and> snd (SubmitDistributedQueryResults reliable (Some enrolled_host)
       [(''kolide_detail_query_uptime'', [[''total_seconds'' \<mapsto> ''a day'']])] Map.empty []) = []"
  by (simp add: SubmitDistributedQueryResults_def ingest_result_def ingestDetailQuery_def
      HasPrefix_def TrimPrefix_def hostDetailQueryPrefix_def detailQueries_def
      uptime_IngestFunc_def index_def emptyToZero_def Atoi_def parse_int64_def is_digit_def)

end
